theory Spec2Isabelle
  imports Complex_Main "HOL-Library.Word"
begin

section \<open>Vector data-set readers of osbenchmark/utils/dataset.py\<close>

text \<open>
  The three readers (\<open>HDF5DataSet\<close>, \<open>ParquetDataSet\<close>, \<open>BigANNVectorDataSet\<close>) are
  Python classes whose methods mutate the object. Each class is a record of its
  attributes; a method takes the record and returns the outcome (an error or a value)
  together with the record as the call leaves it. Python's unbounded integers are
  \<open>int\<close>. The files are parameters: a map from a path to what the library that opens
  the file delivers for it.
\<close>

subsection \<open>Errors, outcomes, slices\<close>

text \<open>
  The exceptions the module raises or lets through. \<open>PyException\<close> is Python's plain
  \<open>Exception(message)\<close>; \<open>ConfigurationError\<close> and \<open>InvalidExtensionException\<close> are
  the two classes the module imports (the latter carries the rejected extension).
  The others come from the callees: \<open>open\<close>, \<open>h5py.File\<close> and \<open>pq.ParquetFile\<close> on
  a path with no file (\<open>FileNotFoundError\<close>), \<open>h5py.File\<close> on the empty name and a
  stream moved to a negative position (\<open>OSError\<close>), indexing an HDF5 file by a field it
  lacks (\<open>KeyError\<close>), \<open>next\<close> on an exhausted iterator (\<open>StopIteration\<close>) or on
  \<open>None\<close> (\<open>TypeError\<close>), \<open>struct.unpack\<close> on a buffer of the wrong length
  (\<open>StructError\<close>), and a method call on an attribute that was never set
  (\<open>AttributeError\<close>).
\<close>

datatype error =
    ConfigurationError string
  | PyException string
  | InvalidExtensionException string
  | FileNotFoundError
  | KeyError string
  | StopIteration
  | TypeError
  | StructError
  | AttributeError
  | OSError

type_synonym ('v, 's) outcome = "(error + 'v) \<times> 's"

text \<open>Sequencing: an exception of the first call ends the method with the state as it is.\<close>

definition bind_res :: "('a, 's) outcome \<Rightarrow> ('a \<Rightarrow> 's \<Rightarrow> ('b, 's) outcome) \<Rightarrow> ('b, 's) outcome" where
  "bind_res r f = (case r of (Inl e, s) \<Rightarrow> (Inl e, s) | (Inr v, s) \<Rightarrow> f v s)"

definition BEGINNING :: int where
  "BEGINNING = 0"

text \<open>
  Python's \<open>xs[start:stop]\<close> and \<open>xs[start:]\<close> (step 1) on a sequence of length \<open>n\<close>:
  a negative bound counts from the end, and every bound is clipped to \<open>[0, n]\<close>
  (\<open>slice.indices\<close>). h5py datasets, numpy arrays and pyarrow record batches follow it.
\<close>

definition slice_index :: "nat \<Rightarrow> int \<Rightarrow> nat" where
  "slice_index n i = (if i < 0 then nat (max 0 (i + int n)) else min (nat i) n)"

definition py_slice :: "'a list \<Rightarrow> int \<Rightarrow> int \<Rightarrow> 'a list" where
  "py_slice xs start stop =
     drop (slice_index (length xs) start) (take (slice_index (length xs) stop) xs)"

definition py_slice_from :: "'a list \<Rightarrow> int \<Rightarrow> 'a list" where
  "py_slice_from xs start = drop (slice_index (length xs) start) xs"

subsection \<open>Context\<close>

datatype Context = INDEX | QUERY | NEIGHBORS

subsection \<open>HDF5DataSet\<close>

text \<open>
  An HDF5 file is the map from its field names to the rows of each field; \<open>h5_data\<close> is
  the field selected on first use (\<open>None\<close> until then). The \<open>context\<close> argument is
  \<open>Some c\<close> for a member of the enum and \<open>None\<close> for anything else (the factory's default
  is Python's \<open>None\<close>). Where the path leads to no file, \<open>h5py.File\<close> raises
  \<open>FileNotFoundError\<close>; the empty name it rejects as an invalid file name, with \<open>OSError\<close>
  (older versions of h5py with \<open>ValueError\<close>).
\<close>

type_synonym 'a h5_fs = "string \<rightharpoonup> (string \<rightharpoonup> 'a list)"

record 'a HDF5DataSet =
  h5_dataset_path :: string
  h5_context :: string
  h5_current :: int
  h5_data :: "'a list option"

definition parse_context :: "Context option \<Rightarrow> error + string" where
  "parse_context context =
     (if context = Some NEIGHBORS then Inr ''neighbors''
      else if context = Some INDEX then Inr ''train''
      else if context = Some QUERY then Inr ''test''
      else Inl (PyException ''Unsupported context''))"

definition HDF5DataSet_init :: "string \<Rightarrow> Context option \<Rightarrow> error + 'a HDF5DataSet" where
  "HDF5DataSet_init dataset_path context =
     (case parse_context context of
        Inl e \<Rightarrow> Inl e
      | Inr c \<Rightarrow> Inr \<lparr>h5_dataset_path = dataset_path, h5_context = c,
                      h5_current = BEGINNING, h5_data = None\<rparr>)"

definition h5_load :: "'a h5_fs \<Rightarrow> 'a HDF5DataSet \<Rightarrow> (unit, 'a HDF5DataSet) outcome" where
  "h5_load fs st =
     (if h5_data st = None then
        (case fs (h5_dataset_path st) of
           None \<Rightarrow>
             (Inl (if h5_dataset_path st = [] then OSError else FileNotFoundError), st)
         | Some file \<Rightarrow>
             (case file (h5_context st) of
                None \<Rightarrow> (Inl (KeyError (h5_context st)), st)
              | Some d \<Rightarrow> (Inr (), st\<lparr>h5_data := Some d\<rparr>)))
      else (Inr (), st))"

definition h5_size :: "'a h5_fs \<Rightarrow> 'a HDF5DataSet \<Rightarrow> (int, 'a HDF5DataSet) outcome" where
  "h5_size fs st =
     bind_res (h5_load fs st) (\<lambda>_ st1.
       case h5_data st1 of
         None \<Rightarrow> (Inl AttributeError, st1)
       | Some d \<Rightarrow> (Inr (int (length d)), st1))"

text \<open>\<open>read\<close> returns \<open>None\<close> (Python's \<open>None\<close>) at the end of the data, else the rows.\<close>

definition h5_read ::
  "'a h5_fs \<Rightarrow> 'a HDF5DataSet \<Rightarrow> int \<Rightarrow> ('a list option, 'a HDF5DataSet) outcome" where
  "h5_read fs st chunk_size =
     bind_res (h5_load fs st) (\<lambda>_ st1.
     bind_res (h5_size fs st1) (\<lambda>sz1 st2.
       if h5_current st2 \<ge> sz1 then (Inr None, st2)
       else
         bind_res (h5_size fs st2) (\<lambda>sz2 st3.
         bind_res (if h5_current st3 + chunk_size > sz2 then h5_size fs st3
                   else (Inr (h5_current st3 + chunk_size), st3)) (\<lambda>end_offset st4.
           case h5_data st4 of
             None \<Rightarrow> (Inl TypeError, st4)
           | Some d \<Rightarrow>
               (Inr (Some (py_slice d (h5_current st4) end_offset)),
                st4\<lparr>h5_current := end_offset\<rparr>)))))"

definition h5_seek ::
  "'a h5_fs \<Rightarrow> 'a HDF5DataSet \<Rightarrow> int \<Rightarrow> (unit, 'a HDF5DataSet) outcome" where
  "h5_seek fs st offset =
     (if offset < BEGINNING then
        (Inl (PyException ''Offset must be greater than or equal to 0''), st)
      else
        bind_res (h5_size fs st) (\<lambda>sz st1.
          if offset \<ge> sz then
            (Inl (PyException ''Offset must be less than the data set size''), st1)
          else (Inr (), st1\<lparr>h5_current := offset\<rparr>)))"

definition h5_reset :: "'a HDF5DataSet \<Rightarrow> 'a HDF5DataSet" where
  "h5_reset st = st\<lparr>h5_current := BEGINNING\<rparr>"

subsection \<open>ParquetDataSet\<close>

text \<open>
  A parquet file, as the reader sees it: the row count its metadata declares, and the
  record batches that \<open>iter_batches\<close> yields for the reader's column, each batch the
  list of its rows. The iterator is the list of the batches it has not yielded yet.
  A record batch is false in a condition exactly when it has no rows, like the empty
  list \<open>prev_batch\<close> starts as.
\<close>

record 'a ParquetFile =
  num_rows :: int
  batches :: "'a list list"

type_synonym 'a pq_fs = "string \<rightharpoonup> 'a ParquetFile"

record 'a ParquetDataSet =
  pq_dataset_path :: string
  pq_file :: "'a ParquetFile option"
  pq_column :: string
  pq_current :: int
  batch_iterator :: "'a list list option"
  prev_batch :: "'a list"
  file_batch_start :: int
  file_batch_end :: int

text \<open>\<open>column\<close> is \<open>None\<close> for Python's \<open>None\<close>, the factory's default.\<close>

definition ParquetDataSet_init :: "string \<Rightarrow> string option \<Rightarrow> error + 'a ParquetDataSet" where
  "ParquetDataSet_init dataset_path column =
     (if dataset_path = [] then
        Inl (ConfigurationError ''dataset path cannot be None or empty'')
      else
        (case column of
           None \<Rightarrow> Inl (ConfigurationError ''dataset column name cannot be None or empty'')
         | Some col \<Rightarrow>
             if col = [] then
               Inl (ConfigurationError ''dataset column name cannot be None or empty'')
             else
               Inr \<lparr>pq_dataset_path = dataset_path, pq_file = None, pq_column = col,
                    pq_current = BEGINNING, batch_iterator = None, prev_batch = [],
                    file_batch_start = 0, file_batch_end = 0\<rparr>))"

definition get_batch :: "'a ParquetDataSet \<Rightarrow> ('a list, 'a ParquetDataSet) outcome" where
  "get_batch st =
     (if prev_batch st \<noteq> [] then (Inr (prev_batch st), st)
      else
        (case batch_iterator st of
           None \<Rightarrow> (Inl TypeError, st)
         | Some [] \<Rightarrow> (Inl StopIteration, st)
         | Some (batch # rest) \<Rightarrow>
             (Inr batch,
              st\<lparr>batch_iterator := Some rest,
                 file_batch_start := file_batch_end st,
                 file_batch_end := file_batch_end st + int (length batch)\<rparr>)))"

text \<open>
  The \<open>while True\<close> loop of \<open>_extract_vectors\<close>, with \<open>vectors\<close> as accumulator. It can
  run forever (the \<open>continue\<close> branch with a batch held in \<open>prev_batch\<close> changes
  nothing), so the result is an option: \<open>None\<close> means the loop does not return.
\<close>

partial_function (option) extract_loop ::
  "'a ParquetDataSet \<Rightarrow> int \<Rightarrow> int \<Rightarrow> 'a list \<Rightarrow> ('a list, 'a ParquetDataSet) outcome option" where
  "extract_loop st start_offset end_offset vectors =
     (case get_batch st of
        (Inl e, st1) \<Rightarrow> Some (Inl e, st1)
      | (Inr batch, st1) \<Rightarrow>
          if batch = [] then Some (Inr vectors, st1)
          else if start_offset > file_batch_end st1 then
            extract_loop st1 start_offset end_offset vectors
          else
            let start_offset' =
                  (if start_offset < file_batch_start st1 then file_batch_start st1
                   else start_offset);
                copy_begin_offset = int (length batch) - (file_batch_end st1 - start_offset')
            in
              if end_offset \<le> file_batch_end st1 then
                let copy_end_offset = int (length batch) - (file_batch_end st1 - end_offset)
                in Some (Inr (vectors @ py_slice batch copy_begin_offset copy_end_offset),
                         st1\<lparr>prev_batch := batch\<rparr>)
              else
                extract_loop (st1\<lparr>prev_batch := []\<rparr>) start_offset' end_offset
                  (vectors @ py_slice_from batch copy_begin_offset))"

declare extract_loop.simps [code]

definition extract_vectors ::
  "'a ParquetDataSet \<Rightarrow> int \<Rightarrow> int \<Rightarrow> ('a list, 'a ParquetDataSet) outcome option" where
  "extract_vectors st start_offset end_offset = extract_loop st start_offset end_offset []"

definition pq_load :: "'a pq_fs \<Rightarrow> 'a ParquetDataSet \<Rightarrow> (unit, 'a ParquetDataSet) outcome" where
  "pq_load fs st =
     (if pq_file st = None then
        (case fs (pq_dataset_path st) of
           None \<Rightarrow> (Inl FileNotFoundError, st)
         | Some f \<Rightarrow>
             (Inr (), st\<lparr>pq_file := Some f, batch_iterator := Some (batches f),
                        prev_batch := [], file_batch_start := 0, file_batch_end := 0\<rparr>))
      else (Inr (), st))"

definition pq_size :: "'a pq_fs \<Rightarrow> 'a ParquetDataSet \<Rightarrow> (int, 'a ParquetDataSet) outcome" where
  "pq_size fs st =
     bind_res (pq_load fs st) (\<lambda>_ st1.
       case pq_file st1 of
         None \<Rightarrow> (Inl AttributeError, st1)
       | Some f \<Rightarrow> (Inr (num_rows f), st1))"

definition pq_read ::
  "'a pq_fs \<Rightarrow> 'a ParquetDataSet \<Rightarrow> int \<Rightarrow> ('a list option, 'a ParquetDataSet) outcome option" where
  "pq_read fs st chunk_size =
     (case pq_load fs st of
        (Inl e, st1) \<Rightarrow> Some (Inl e, st1)
      | (Inr _, st1) \<Rightarrow>
     (case pq_size fs st1 of
        (Inl e, st2) \<Rightarrow> Some (Inl e, st2)
      | (Inr sz1, st2) \<Rightarrow>
          if pq_current st2 \<ge> sz1 then Some (Inr None, st2)
          else
     (case pq_size fs st2 of
        (Inl e, st3) \<Rightarrow> Some (Inl e, st3)
      | (Inr sz2, st3) \<Rightarrow>
     (case (if pq_current st3 + chunk_size > sz2 then pq_size fs st3
            else (Inr (pq_current st3 + chunk_size), st3)) of
        (Inl e, st4) \<Rightarrow> Some (Inl e, st4)
      | (Inr end_offset, st4) \<Rightarrow>
     (case extract_vectors st4 (pq_current st4) end_offset of
        None \<Rightarrow> None
      | Some (Inl e, st5) \<Rightarrow> Some (Inl e, st5)
      | Some (Inr vectors, st5) \<Rightarrow>
          Some (Inr (Some vectors), st5\<lparr>pq_current := end_offset\<rparr>))))))"

definition pq_seek ::
  "'a pq_fs \<Rightarrow> 'a ParquetDataSet \<Rightarrow> int \<Rightarrow> (unit, 'a ParquetDataSet) outcome" where
  "pq_seek fs st offset =
     (if offset < BEGINNING then
        (Inl (PyException ''Offset must be greater than or equal to 0''), st)
      else
        bind_res (pq_size fs st) (\<lambda>sz st1.
          if offset \<ge> sz then
            (Inl (PyException ''Offset must be less than the data set size''), st1)
          else (Inr (), st1\<lparr>pq_current := offset\<rparr>)))"

definition pq_reset :: "'a ParquetDataSet \<Rightarrow> 'a ParquetDataSet" where
  "pq_reset st = st\<lparr>pq_current := BEGINNING, pq_file := None\<rparr>"

subsection \<open>BigANNVectorDataSet\<close>

text \<open>
  A file opened with \<open>open(path, 'rb')\<close>: its bytes and the position of the stream.
  \<open>read(n)\<close> returns the at most \<open>n\<close> bytes from the position on and moves the position
  past them; \<open>seek\<close> to a negative position raises \<open>OSError\<close>.
\<close>

type_synonym byte = "8 word"

type_synonym ba_fs = "string \<rightharpoonup> byte list"

record file_handle =
  contents :: "byte list"
  pos :: nat

definition file_read :: "file_handle \<Rightarrow> nat \<Rightarrow> byte list \<times> file_handle" where
  "file_read fh n =
     (let bs = take n (drop (pos fh) (contents fh))
      in (bs, fh\<lparr>pos := pos fh + length bs\<rparr>))"

definition file_seek :: "file_handle \<Rightarrow> int \<Rightarrow> error + file_handle" where
  "file_seek fh offset = (if offset < 0 then Inl OSError else Inr (fh\<lparr>pos := nat offset\<rparr>))"

text \<open>\<open>int.from_bytes(bs, "little")\<close>, for a buffer of any length.\<close>

fun int_from_bytes_little :: "byte list \<Rightarrow> int" where
  "int_from_bytes_little [] = 0"
| "int_from_bytes_little (b # bs) = uint b + 256 * int_from_bytes_little bs"

text \<open>
  A Python float is a finite real, an infinity or a NaN. The value that the 32 bits
  \<open>n\<close> denote in IEEE-754 single precision (sign, 8 bits of exponent with bias 127, 23
  bits of fraction) is exact in a Python float, so decoding does not round. The two
  zeros are both \<open>Finite 0\<close>. A value of the returned array is a float or, where the
  code builds one, a tuple.
\<close>

datatype pyfloat = Finite real | PlusInf | MinusInf | NaN

datatype pyval = PFloat pyfloat | PTuple "pyval list"

definition float32_of_bits :: "int \<Rightarrow> pyfloat" where
  "float32_of_bits n =
     (let sign = (n div 2 ^ 31) mod 2;
          e = (n div 2 ^ 23) mod 256;
          m = n mod 2 ^ 23;
          sgn = (if sign = 1 then - 1 else 1 :: real)
      in if e = 255 then
           (if m = 0 then (if sign = 1 then MinusInf else PlusInf) else NaN)
         else if e = 0 then Finite (sgn * real_of_int m / 2 ^ 149)
         else if e \<ge> 150 then Finite (sgn * real_of_int (2 ^ 23 + m) * 2 ^ nat (e - 150))
         else Finite (sgn * real_of_int (2 ^ 23 + m) / 2 ^ nat (150 - e)))"

text \<open>
  \<open>struct.unpack('<f', buffer)\<close>: the buffer must hold exactly 4 bytes; the result is a
  tuple with one element, as \<open>struct.unpack\<close> returns for every format.
\<close>

definition struct_unpack_f :: "byte list \<Rightarrow> error + pyval" where
  "struct_unpack_f bs =
     (if length bs \<noteq> 4 then Inl StructError
      else Inr (PTuple [PFloat (float32_of_bits (int_from_bytes_little bs))]))"

definition DATA_SET_HEADER_LENGTH :: int where
  "DATA_SET_HEADER_LENGTH = 8"

definition U8BIN_EXTENSION :: string where
  "U8BIN_EXTENSION = ''u8bin''"

definition FBIN_EXTENSION :: string where
  "FBIN_EXTENSION = ''fbin''"

definition SUPPORTED_EXTENSION :: "string list" where
  "SUPPORTED_EXTENSION = [FBIN_EXTENSION, U8BIN_EXTENSION]"

definition BYTES_PER_U8INT :: int where
  "BYTES_PER_U8INT = 1"

definition BYTES_PER_FLOAT :: int where
  "BYTES_PER_FLOAT = 4"

type_synonym value_reader = "file_handle \<Rightarrow> (pyval, file_handle) outcome"

record BigANNVectorDataSet =
  ba_dataset_path :: string
  ba_file :: "file_handle option"
  ba_current :: int
  num_points :: int
  dimension :: int
  bytes_per_num :: int
  reader :: "value_reader option"

text \<open>\<open>reader\<close> is \<open>None\<close> while the attribute does not exist: the constructor does not set it.\<close>

definition BigANNVectorDataSet_init :: "string \<Rightarrow> BigANNVectorDataSet" where
  "BigANNVectorDataSet_init dataset_path =
     \<lparr>ba_dataset_path = dataset_path, ba_file = None, ba_current = BEGINNING,
      num_points = 0, dimension = 0, bytes_per_num = 0, reader = None\<rparr>"

text \<open>\<open>file_name.split('.')[-1]\<close>: what follows the last dot, or the whole name without one.\<close>

definition last_dot_part :: "string \<Rightarrow> string" where
  "last_dot_part file_name = rev (takeWhile (\<lambda>c. c \<noteq> CHR ''.'') (rev file_name))"

definition get_extension :: "string \<Rightarrow> error + string" where
  "get_extension file_name =
     (let ext = last_dot_part file_name
      in if ext \<notin> set SUPPORTED_EXTENSION then Inl (InvalidExtensionException ext)
         else Inr ext)"

text \<open>
  \<open>_get_data_size\<close> and \<open>_value_reader\<close> end without a \<open>return\<close> for a third extension.
  \<open>_get_extension\<close> admits no third one; the branch is kept, with the \<open>TypeError\<close> that
  using the resulting \<open>None\<close> raises.
\<close>

definition get_data_size :: "string \<Rightarrow> error + int" where
  "get_data_size file_name =
     (case get_extension file_name of
        Inl e \<Rightarrow> Inl e
      | Inr ext \<Rightarrow>
          if ext = U8BIN_EXTENSION then Inr BYTES_PER_U8INT
          else if ext = FBIN_EXTENSION then Inr BYTES_PER_FLOAT
          else Inl TypeError)"

definition u8_reader :: value_reader where
  "u8_reader file =
     (case file_read file (nat BYTES_PER_U8INT) of
        (bs, file1) \<Rightarrow> (Inr (PFloat (Finite (real_of_int (int_from_bytes_little bs)))), file1))"

definition f_reader :: value_reader where
  "f_reader file =
     (case file_read file (nat BYTES_PER_FLOAT) of
        (bs, file1) \<Rightarrow>
          (case struct_unpack_f bs of Inl e \<Rightarrow> (Inl e, file1) | Inr v \<Rightarrow> (Inr v, file1)))"

definition value_reader :: "string \<Rightarrow> error + value_reader" where
  "value_reader file_name =
     (case get_extension file_name of
        Inl e \<Rightarrow> Inl e
      | Inr ext \<Rightarrow>
          if ext = U8BIN_EXTENSION then Inr u8_reader
          else if ext = FBIN_EXTENSION then Inr f_reader
          else Inl TypeError)"

definition init_internal_params ::
  "ba_fs \<Rightarrow> BigANNVectorDataSet \<Rightarrow> (unit, BigANNVectorDataSet) outcome" where
  "init_internal_params fs st =
     (case fs (ba_dataset_path st) of
        None \<Rightarrow> (Inl FileNotFoundError, st)
      | Some bytes \<Rightarrow>
          let file0 = \<lparr>contents = bytes, pos = 0\<rparr>;
              num_bytes = int (length bytes);
              st1 = st\<lparr>ba_file := Some file0\<rparr>
          in
            if num_bytes < DATA_SET_HEADER_LENGTH then
              (Inl (PyException ''Invalid file: file size cannot be less than 8 bytes''), st1)
            else
              (case file_read file0 4 of (b1, file1) \<Rightarrow>
              (case file_read file1 4 of (b2, file2) \<Rightarrow>
                 let st2 = st1\<lparr>ba_file := Some file2,
                               num_points := int_from_bytes_little b1,
                               dimension := int_from_bytes_little b2\<rparr>
                 in
                   (case get_data_size (ba_dataset_path st2) of
                      Inl e \<Rightarrow> (Inl e, st2)
                    | Inr n \<Rightarrow>
                        let st3 = st2\<lparr>bytes_per_num := n\<rparr>
                        in
                          if num_bytes - DATA_SET_HEADER_LENGTH \<noteq>
                             num_points st3 * dimension st3 * bytes_per_num st3
                          then
                            (Inl (PyException ''Invalid file. File size is not matching with expected estimated value based on number of points, dimension and bytes per point''), st3)
                          else
                            (case value_reader (ba_dataset_path st3) of
                               Inl e \<Rightarrow> (Inl e, st3)
                             | Inr r \<Rightarrow> (Inr (), st3\<lparr>reader := Some r\<rparr>))))))"

definition ba_load :: "ba_fs \<Rightarrow> BigANNVectorDataSet \<Rightarrow> (unit, BigANNVectorDataSet) outcome" where
  "ba_load fs st = (if ba_file st = None then init_internal_params fs st else (Inr (), st))"

definition ba_size :: "ba_fs \<Rightarrow> BigANNVectorDataSet \<Rightarrow> (int, BigANNVectorDataSet) outcome" where
  "ba_size fs st = bind_res (ba_load fs st) (\<lambda>_ st1. (Inr (num_points st1), st1))"

text \<open>The list comprehension of \<open>_read_vector\<close>: \<open>n\<close> calls of the reader, in order.\<close>

fun read_values :: "value_reader \<Rightarrow> nat \<Rightarrow> file_handle \<Rightarrow> (pyval list, file_handle) outcome" where
  "read_values r 0 file = (Inr [], file)"
| "read_values r (Suc n) file =
     bind_res (r file) (\<lambda>v file1.
     bind_res (read_values r n file1) (\<lambda>vs file2. (Inr (v # vs), file2)))"

definition read_vector :: "BigANNVectorDataSet \<Rightarrow> (pyval list, BigANNVectorDataSet) outcome" where
  "read_vector st =
     (case reader st of
        None \<Rightarrow> (Inl AttributeError, st)
      | Some r \<Rightarrow>
          (case ba_file st of
             None \<Rightarrow> (Inl AttributeError, st)
           | Some file \<Rightarrow>
               (case read_values r (nat (dimension st)) file of
                  (res, file1) \<Rightarrow> (res, st\<lparr>ba_file := Some file1\<rparr>))))"

text \<open>The list comprehension of \<open>read\<close>: \<open>n\<close> calls of \<open>_read_vector\<close>, in order.\<close>

fun read_vectors ::
  "nat \<Rightarrow> BigANNVectorDataSet \<Rightarrow> (pyval list list, BigANNVectorDataSet) outcome" where
  "read_vectors 0 st = (Inr [], st)"
| "read_vectors (Suc n) st =
     bind_res (read_vector st) (\<lambda>v st1.
     bind_res (read_vectors n st1) (\<lambda>vs st2. (Inr (v # vs), st2)))"

definition ba_read ::
  "ba_fs \<Rightarrow> BigANNVectorDataSet \<Rightarrow> int \<Rightarrow>
   (pyval list list option, BigANNVectorDataSet) outcome" where
  "ba_read fs st chunk_size =
     bind_res (ba_load fs st) (\<lambda>_ st1.
     bind_res (ba_size fs st1) (\<lambda>sz1 st2.
       if ba_current st2 \<ge> sz1 then (Inr None, st2)
       else
         bind_res (ba_size fs st2) (\<lambda>sz2 st3.
         bind_res (if ba_current st3 + chunk_size > sz2 then ba_size fs st3
                   else (Inr (ba_current st3 + chunk_size), st3)) (\<lambda>end_offset st4.
         bind_res (read_vectors (nat (end_offset - ba_current st4)) st4) (\<lambda>vectors st5.
           (Inr (Some vectors), st5\<lparr>ba_current := end_offset\<rparr>))))))"

definition ba_seek ::
  "ba_fs \<Rightarrow> BigANNVectorDataSet \<Rightarrow> int \<Rightarrow> (unit, BigANNVectorDataSet) outcome" where
  "ba_seek fs st offset =
     bind_res (ba_load fs st) (\<lambda>_ st1.
       if offset < BEGINNING then
         (Inl (PyException ''Offset must be greater than or equal to 0''), st1)
       else
         bind_res (ba_size fs st1) (\<lambda>sz st2.
           if offset \<ge> sz then
             (Inl (PyException ''Offset must be less than the data set size''), st2)
           else
             (case ba_file st2 of
                None \<Rightarrow> (Inl AttributeError, st2)
              | Some file \<Rightarrow>
                  (case file_seek file
                          (DATA_SET_HEADER_LENGTH + dimension st2 * bytes_per_num st2 * offset) of
                     Inl e \<Rightarrow> (Inl e, st2)
                   | Inr file1 \<Rightarrow> (Inr (), st2\<lparr>ba_file := Some file1, ba_current := offset\<rparr>)))))"

definition ba_reset :: "BigANNVectorDataSet \<Rightarrow> (unit, BigANNVectorDataSet) outcome" where
  "ba_reset st =
     (case ba_file st of
        None \<Rightarrow> (Inr (), st\<lparr>ba_current := BEGINNING\<rparr>)
      | Some file \<Rightarrow>
          (case file_seek file DATA_SET_HEADER_LENGTH of
             Inl e \<Rightarrow> (Inl e, st)
           | Inr file1 \<Rightarrow> (Inr (), st\<lparr>ba_file := Some file1, ba_current := BEGINNING\<rparr>)))"

subsection \<open>The factory\<close>

datatype 'a data_set =
    DS_HDF5 "'a HDF5DataSet"
  | DS_BigANN BigANNVectorDataSet
  | DS_Parquet "'a ParquetDataSet"

definition get_data_set ::
  "string \<Rightarrow> string \<Rightarrow> Context option \<Rightarrow> string option \<Rightarrow> error + 'a data_set" where
  "get_data_set data_set_format path context column_name =
     (if data_set_format = ''hdf5'' then
        (case HDF5DataSet_init path context of Inl e \<Rightarrow> Inl e | Inr ds \<Rightarrow> Inr (DS_HDF5 ds))
      else if data_set_format = ''bigann'' then
        Inr (DS_BigANN (BigANNVectorDataSet_init path))
      else if data_set_format = ''parquet'' then
        (case ParquetDataSet_init path column_name of
           Inl e \<Rightarrow> Inl e
         | Inr ds \<Rightarrow> Inr (DS_Parquet ds))
      else Inl (ConfigurationError ''Invalid data set format''))"

subsection \<open>Example inputs and auxiliary notions\<close>

text \<open>Whether an outcome is the exception class \<open>ConfigurationError\<close>.\<close>

fun raises_ConfigurationError :: "error + 'a \<Rightarrow> bool" where
  "raises_ConfigurationError (Inl (ConfigurationError msg)) = True"
| "raises_ConfigurationError r = False"

text \<open>
  The 24 bytes of a file \<open>data.fbin\<close>: the header (2 points, dimension 2) and the
  little-endian single-precision encodings of 1.0, 2.0, 3.0 and 4.0.
\<close>

definition fbin_example :: "byte list" where
  "fbin_example =
     [2, 0, 0, 0,  2, 0, 0, 0,
      0, 0, 0x80, 0x3F,  0, 0, 0, 0x40,  0, 0, 0x40, 0x40,  0, 0, 0x80, 0x40]"

text \<open>
  The exception that \<open>seek\<close> raises for an offset out of range is a plain \<open>Exception\<close>
  with one of two messages.
\<close>

fun is_RangeError :: "error \<Rightarrow> bool" where
  "is_RangeError (PyException msg) =
     (msg = ''Offset must be greater than or equal to 0'' \<or>
      msg = ''Offset must be less than the data set size'')"
| "is_RangeError e = False"

text \<open>
  The constructor of the flat reader sets \<open>dimension\<close> and \<open>bytes_per_num\<close> to 0, the header
  is parsed as unsigned, and the size of a value is 1 or 4: no method makes either negative.
\<close>

definition ba_wf :: "BigANNVectorDataSet \<Rightarrow> bool" where
  "ba_wf st = (0 \<le> dimension st \<and> 0 \<le> bytes_per_num st)"

text \<open>Small files and the readers constructed for them.\<close>

definition h5_empty_fs :: "nat h5_fs" where
  "h5_empty_fs = [''empty.hdf5'' \<mapsto> [''train'' \<mapsto> []]]"

definition h5_empty_new :: "nat HDF5DataSet" where
  "h5_empty_new = \<lparr>h5_dataset_path = ''empty.hdf5'', h5_context = ''train'',
                    h5_current = 0, h5_data = None\<rparr>"

definition h5_example_fs :: "nat h5_fs" where
  "h5_example_fs = [''data.hdf5'' \<mapsto> [''train'' \<mapsto> [10, 11, 12], ''test'' \<mapsto> [20]]]"

definition h5_example_new :: "nat HDF5DataSet" where
  "h5_example_new = \<lparr>h5_dataset_path = ''data.hdf5'', h5_context = ''train'',
                      h5_current = 0, h5_data = None\<rparr>"

definition pq_example_file :: "nat ParquetFile" where
  "pq_example_file = \<lparr>num_rows = 5, batches = [[10, 11], [12, 13, 14]]\<rparr>"

definition pq_example_fs :: "nat pq_fs" where
  "pq_example_fs = [''data.parquet'' \<mapsto> pq_example_file]"

definition pq_example_new :: "nat ParquetDataSet" where
  "pq_example_new =
     \<lparr>pq_dataset_path = ''data.parquet'', pq_file = None, pq_column = ''emb'',
      pq_current = 0, batch_iterator = None, prev_batch = [],
      file_batch_start = 0, file_batch_end = 0\<rparr>"

definition fbin_loaded :: BigANNVectorDataSet where
  "fbin_loaded =
     \<lparr>ba_dataset_path = ''data.fbin'',
      ba_file = Some \<lparr>contents = fbin_example, pos = 8\<rparr>, ba_current = 0,
      num_points = 2, dimension = 2, bytes_per_num = 4, reader = Some f_reader\<rparr>"

text \<open>
  The exceptions of \<open>_init_internal_params\<close> that reject the file: the two plain
  exceptions about the file size, and the rejected extension.
\<close>

fun is_FormatError :: "error \<Rightarrow> bool" where
  "is_FormatError (InvalidExtensionException ext) = True"
| "is_FormatError (PyException msg) =
     (msg = ''Invalid file: file size cannot be less than 8 bytes'' \<or>
      msg = ''Invalid file. File size is not matching with expected estimated value based on number of points, dimension and bytes per point'')"
| "is_FormatError e = False"

text \<open>
  The calls a user of the flat reader can make, and the reader after a call, whether the
  call returned or raised.
\<close>

datatype ba_call = Read int | Seek int | Size | Reset

fun ba_after :: "ba_fs \<Rightarrow> BigANNVectorDataSet \<Rightarrow> ba_call \<Rightarrow> BigANNVectorDataSet" where
  "ba_after fs st (Read chunk_size) = snd (ba_read fs st chunk_size)"
| "ba_after fs st (Seek offset) = snd (ba_seek fs st offset)"
| "ba_after fs st Size = snd (ba_size fs st)"
| "ba_after fs st Reset = snd (ba_reset st)"

text \<open>The fields parsed from the header and the extension; whether the file is open.\<close>

definition header_fields :: "BigANNVectorDataSet \<Rightarrow> int \<times> int \<times> int" where
  "header_fields st = (num_points st, dimension st, bytes_per_num st)"

definition ba_open :: "BigANNVectorDataSet \<Rightarrow> bool" where
  "ba_open st = (ba_file st \<noteq> None)"

text \<open>
  The number of rows in a list of batches, and the rows of a file in order.
\<close>

definition total_rows :: "'a list list \<Rightarrow> int" where
  "total_rows bs = int (length (concat bs))"

definition all_rows :: "'a ParquetFile \<Rightarrow> 'a list" where
  "all_rows F = concat (batches F)"

text \<open>
  What the columnar reader relies on in a file: \<open>iter_batches\<close> yields no batch without
  rows, and the batches together hold as many rows as the metadata declare.
\<close>

definition pq_file_ok :: "'a ParquetFile \<Rightarrow> bool" where
  "pq_file_ok F = ([] \<notin> set (batches F) \<and> num_rows F = total_rows (batches F))"

text \<open>
  The state of a loaded columnar reader whose window fits its cursor: the iterator holds
  the last \<open>length its\<close> batches of the file, \<open>file_batch_end\<close> is the number of rows of the
  batches before them, and either no batch is held and the cursor is not before
  \<open>file_batch_end\<close>, or the held batch is the one yielded last, \<open>file_batch_start\<close> is the
  row it starts at, and the cursor lies between \<open>file_batch_start\<close> and \<open>file_batch_end\<close>
  (both included). \<open>pq_ready\<close> also admits a reader that has not loaded its file yet and
  whose cursor is not negative.
\<close>

definition pq_window_ok :: "'a ParquetFile \<Rightarrow> 'a ParquetDataSet \<Rightarrow> bool" where
  "pq_window_ok F st =
     (pq_file st = Some F \<and>
      (case batch_iterator st of
         None \<Rightarrow> False
       | Some its \<Rightarrow>
           let k = length (batches F) - length its;
               pre = take k (batches F)
           in length its \<le> length (batches F) \<and> drop k (batches F) = its \<and>
              file_batch_end st = total_rows pre \<and>
              (if prev_batch st = [] then file_batch_end st \<le> pq_current st
               else pre \<noteq> [] \<and> prev_batch st = last pre \<and>
                    file_batch_start st = total_rows (butlast pre) \<and>
                    file_batch_start st \<le> pq_current st \<and>
                    pq_current st \<le> file_batch_end st)))"

definition pq_ready :: "'a pq_fs \<Rightarrow> 'a ParquetDataSet \<Rightarrow> 'a ParquetFile \<Rightarrow> bool" where
  "pq_ready fs st F =
     (pq_file_ok F \<and>
      (case pq_file st of
         None \<Rightarrow> fs (pq_dataset_path st) = Some F \<and> 0 \<le> pq_current st
       | Some F' \<Rightarrow> F' = F \<and> pq_window_ok F st))"

text \<open>A caller that issues one \<open>read\<close> after the other, stopping at the first exception.\<close>

fun pq_reads ::
  "'a pq_fs \<Rightarrow> 'a ParquetDataSet \<Rightarrow> int list \<Rightarrow>
   ('a list option list, 'a ParquetDataSet) outcome option" where
  "pq_reads fs st [] = Some (Inr [], st)"
| "pq_reads fs st (c # cs) =
     (case pq_read fs st c of
        None \<Rightarrow> None
      | Some (Inl e, st1) \<Rightarrow> Some (Inl e, st1)
      | Some (Inr r, st1) \<Rightarrow>
          (case pq_reads fs st1 cs of
             None \<Rightarrow> None
           | Some (Inl e, st2) \<Rightarrow> Some (Inl e, st2)
           | Some (Inr rs, st2) \<Rightarrow> Some (Inr (r # rs), st2)))"

text \<open>
  The ranges such a caller requests of a data set with rows \<open>rows\<close>, from cursor \<open>cur\<close>
  on: each chunk size asks for the rows from the cursor up to the chunk size further, cut
  at the end of the data, and \<open>None\<close> once the cursor is at the end.
\<close>

fun requested_ranges :: "'a list \<Rightarrow> int \<Rightarrow> int list \<Rightarrow> 'a list option list" where
  "requested_ranges rows cur [] = []"
| "requested_ranges rows cur (c # cs) =
     (if cur \<ge> int (length rows) then None # requested_ranges rows cur cs
      else
        Some (drop (nat cur) (take (nat (min (cur + c) (int (length rows)))) rows)) #
        requested_ranges rows (min (cur + c) (int (length rows))) cs)"

text \<open>
  A file of 1300 rows in batches of 500, 500 and 300 rows; a row is its index.
\<close>

definition pq_stitch_file :: "nat ParquetFile" where
  "pq_stitch_file = \<lparr>num_rows = 1300, batches = [[0..<500], [500..<1000], [1000..<1300]]\<rparr>"

text \<open>
  What a \<open>read\<close> with chunk size \<open>c\<close> is to return on a data set with rows \<open>rows\<close> and
  cursor \<open>cur\<close>: \<open>None\<close> at the end of the data, else the \<open>min c (size - cur)\<close> rows from
  the cursor on, in order; and where the cursor is to be afterwards.
\<close>

definition expected_read :: "'a list \<Rightarrow> int \<Rightarrow> int \<Rightarrow> 'a list option" where
  "expected_read rows cur c =
     (if cur \<ge> int (length rows) then None
      else Some (take (nat (min c (int (length rows) - cur))) (drop (nat cur) rows)))"

definition expected_cursor :: "'a list \<Rightarrow> int \<Rightarrow> int \<Rightarrow> int" where
  "expected_cursor rows cur c =
     (if cur \<ge> int (length rows) then cur else cur + min c (int (length rows) - cur))"

text \<open>
  A hierarchical reader that can serve the rows \<open>d\<close>: its cursor is not negative, and
  it has loaded \<open>d\<close> or will load it from the file at its path. \<open>h5_new\<close> is the reader
  as the constructor makes it for the same path and context.
\<close>

definition h5_ready :: "'a h5_fs \<Rightarrow> 'a HDF5DataSet \<Rightarrow> 'a list \<Rightarrow> bool" where
  "h5_ready fs st d =
     (0 \<le> h5_current st \<and>
      (case h5_data st of
         Some d' \<Rightarrow> d' = d
       | None \<Rightarrow>
           (case fs (h5_dataset_path st) of
              None \<Rightarrow> False
            | Some file \<Rightarrow> file (h5_context st) = Some d)))"

definition h5_new :: "'a HDF5DataSet \<Rightarrow> 'a HDF5DataSet" where
  "h5_new st = \<lparr>h5_dataset_path = h5_dataset_path st, h5_context = h5_context st,
               h5_current = BEGINNING, h5_data = None\<rparr>"

text \<open>
  The vectors of a flat file as the reader decodes them: value \<open>j\<close> of row \<open>i\<close> is the
  \<open>w\<close> bytes at offset \<open>8 + (i * dimension + j) * w\<close>, decoded as \<open>u8_reader\<close> does
  for \<open>w = 1\<close> and as \<open>f_reader\<close> does for \<open>w = 4\<close>. Point count and dimension come
  from the header, the width from the extension.
\<close>

definition ba_decode :: "nat \<Rightarrow> byte list \<Rightarrow> pyval" where
  "ba_decode w bs =
     (if w = 1 then PFloat (Finite (real_of_int (int_from_bytes_little bs)))
      else PTuple [PFloat (float32_of_bits (int_from_bytes_little bs))])"

definition ba_row :: "byte list \<Rightarrow> nat \<Rightarrow> nat \<Rightarrow> nat \<Rightarrow> pyval list" where
  "ba_row bytes dm w i =
     map (\<lambda>j. ba_decode w (take w (drop (8 + (i * dm + j) * w) bytes))) [0..<dm]"

definition ba_width :: "string \<Rightarrow> nat" where
  "ba_width path = (if last_dot_part path = ''u8bin'' then 1 else 4)"

definition ba_points :: "byte list \<Rightarrow> nat" where
  "ba_points bytes = nat (int_from_bytes_little (take 4 bytes))"

definition ba_dim :: "byte list \<Rightarrow> nat" where
  "ba_dim bytes = nat (int_from_bytes_little (take 4 (drop 4 bytes)))"

definition ba_rows :: "string \<Rightarrow> byte list \<Rightarrow> pyval list list" where
  "ba_rows path bytes = map (ba_row bytes (ba_dim bytes) (ba_width path)) [0..<ba_points bytes]"

text \<open>
  A file that \<open>_init_internal_params\<close> accepts, the reader for its extension, and a
  flat reader that can serve it: either the file is not open yet and the cursor is 0, or
  it is open, the header fields and the value reader are the ones parsed from it, and the
  stream stands at the row of the cursor.
\<close>

definition ba_file_ok :: "string \<Rightarrow> byte list \<Rightarrow> bool" where
  "ba_file_ok path bytes =
     (8 \<le> length bytes \<and>
      (last_dot_part path = ''u8bin'' \<or> last_dot_part path = ''fbin'') \<and>
      length bytes = 8 + ba_points bytes * ba_dim bytes * ba_width path)"

definition ba_reader_of :: "string \<Rightarrow> value_reader" where
  "ba_reader_of path = (if last_dot_part path = ''u8bin'' then u8_reader else f_reader)"

definition ba_ready :: "ba_fs \<Rightarrow> BigANNVectorDataSet \<Rightarrow> byte list \<Rightarrow> bool" where
  "ba_ready fs st bytes =
     (ba_file_ok (ba_dataset_path st) bytes \<and>
      (case ba_file st of
         None \<Rightarrow> fs (ba_dataset_path st) = Some bytes \<and> ba_current st = 0
       | Some f \<Rightarrow>
           contents f = bytes \<and>
           num_points st = int (ba_points bytes) \<and>
           dimension st = int (ba_dim bytes) \<and>
           bytes_per_num st = int (ba_width (ba_dataset_path st)) \<and>
           reader st = Some (ba_reader_of (ba_dataset_path st)) \<and>
           0 \<le> ba_current st \<and>
           int (pos f) = 8 + dimension st * bytes_per_num st * ba_current st))"

text \<open>
  The columnar reader as the constructor makes it for the same path and column, and the
  result of a read after the first \<open>n\<close> vectors are discarded.
\<close>

definition pq_new :: "'a ParquetDataSet \<Rightarrow> 'a ParquetDataSet" where
  "pq_new st = \<lparr>pq_dataset_path = pq_dataset_path st, pq_file = None, pq_column = pq_column st,
               pq_current = BEGINNING, batch_iterator = None, prev_batch = [],
               file_batch_start = 0, file_batch_end = 0\<rparr>"

definition after_discarding :: "int \<Rightarrow> error + 'a list option \<Rightarrow> error + 'a list option" where
  "after_discarding n r =
     (case r of Inr (Some vectors) \<Rightarrow> Inr (Some (drop (nat n) vectors)) | _ \<Rightarrow> r)"

text \<open>
  The example reader after \<open>read(3)\<close>: the second batch is held, with window from 2 up
  to 5.
\<close>

definition pq_example_held :: "nat ParquetDataSet" where
  "pq_example_held =
     \<lparr>pq_dataset_path = ''data.parquet'', pq_file = Some pq_example_file, pq_column = ''emb'',
      pq_current = 3, batch_iterator = Some [], prev_batch = [12, 13, 14],
      file_batch_start = 2, file_batch_end = 5\<rparr>"

text \<open>
  The example readers with all rows read.
\<close>

definition h5_example_at_end :: "nat HDF5DataSet" where
  "h5_example_at_end = h5_example_new\<lparr>h5_current := 3, h5_data := Some [10, 11, 12]\<rparr>"

definition fbin_at_end :: BigANNVectorDataSet where
  "fbin_at_end = fbin_loaded\<lparr>ba_file := Some \<lparr>contents = fbin_example, pos = 24\<rparr>, ba_current := 2\<rparr>"

section \<open>Properties\<close>

subsection \<open>Basic facts\<close>

lemma bind_res_Inl [simp]: "bind_res (Inl e, s) f = (Inl e, s)"
  by (simp add: bind_res_def)

lemma bind_res_Inr [simp]: "bind_res (Inr v, s) f = f v s"
  by (simp add: bind_res_def)

lemma ba_load_open: "ba_file st = Some f \<Longrightarrow> ba_load fs st = (Inr (), st)"
  by (simp add: ba_load_def)

lemma ba_size_open: "ba_file st = Some f \<Longrightarrow> ba_size fs st = (Inr (num_points st), st)"
  by (simp add: ba_size_def ba_load_open)

subsection \<open>Decoding a float file\<close>

lemma get_extension_data_fbin: "get_extension ''data.fbin'' = Inr ''fbin''"
  by (simp add: get_extension_def last_dot_part_def SUPPORTED_EXTENSION_def
      FBIN_EXTENSION_def U8BIN_EXTENSION_def)

lemma init_fbin_example:
  "init_internal_params [''data.fbin'' \<mapsto> fbin_example] (BigANNVectorDataSet_init ''data.fbin'') =
   (Inr (), \<lparr>ba_dataset_path = ''data.fbin'',
             ba_file = Some \<lparr>contents = fbin_example, pos = 8\<rparr>, ba_current = 0,
             num_points = 2, dimension = 2, bytes_per_num = 4, reader = Some f_reader\<rparr>)"
  by (simp add: init_internal_params_def BigANNVectorDataSet_init_def get_extension_data_fbin
      get_data_size_def value_reader_def fbin_example_def file_read_def
      DATA_SET_HEADER_LENGTH_def FBIN_EXTENSION_def U8BIN_EXTENSION_def BYTES_PER_FLOAT_def
      BEGINNING_def)

lemma f_reader_fbin_example:
  "f_reader \<lparr>contents = fbin_example, pos = 8\<rparr> =
     (Inr (PTuple [PFloat (Finite 1)]), \<lparr>contents = fbin_example, pos = 12\<rparr>)"
  "f_reader \<lparr>contents = fbin_example, pos = 12\<rparr> =
     (Inr (PTuple [PFloat (Finite 2)]), \<lparr>contents = fbin_example, pos = 16\<rparr>)"
  "f_reader \<lparr>contents = fbin_example, pos = 16\<rparr> =
     (Inr (PTuple [PFloat (Finite 3)]), \<lparr>contents = fbin_example, pos = 20\<rparr>)"
  "f_reader \<lparr>contents = fbin_example, pos = 20\<rparr> =
     (Inr (PTuple [PFloat (Finite 4)]), \<lparr>contents = fbin_example, pos = 24\<rparr>)"
  by (simp_all add: f_reader_def file_read_def fbin_example_def BYTES_PER_FLOAT_def
      struct_unpack_f_def float32_of_bits_def Let_def)

text \<open>
  C1. On the file \<open>data.fbin\<close> with header (2, 2) and the encodings of 1.0, 2.0, 3.0, 4.0,
  \<open>read(2)\<close> of the flat reader returns two vectors of two components, and each
  component is the one-element tuple that \<open>struct.unpack\<close> returns, holding the decoded
  float: \<open>[[(1.0,), (2.0,)], [(3.0,), (4.0,)]]\<close>, an array of shape (2, 2, 1), and not the
  batch \<open>[[1.0, 2.0], [3.0, 4.0]]\<close> of scalars.
\<close>

theorem fbin_read_yields_tuples:
  "fst (ba_read [''data.fbin'' \<mapsto> fbin_example] (BigANNVectorDataSet_init ''data.fbin'') 2) =
     Inr (Some [[PTuple [PFloat (Finite 1)], PTuple [PFloat (Finite 2)]],
                [PTuple [PFloat (Finite 3)], PTuple [PFloat (Finite 4)]]])"
proof -
  have l: "ba_load [''data.fbin'' \<mapsto> fbin_example] (BigANNVectorDataSet_init ''data.fbin'') =
     (Inr (), \<lparr>ba_dataset_path = ''data.fbin'',
               ba_file = Some \<lparr>contents = fbin_example, pos = 8\<rparr>, ba_current = 0,
               num_points = 2, dimension = 2, bytes_per_num = 4, reader = Some f_reader\<rparr>)"
    unfolding ba_load_def init_fbin_example [symmetric]
    by (simp add: BigANNVectorDataSet_init_def)
  show ?thesis
    by (simp add: ba_read_def l ba_size_open read_vector_def numeral_2_eq_2
        f_reader_fbin_example)
qed

lemma h5_load_loaded: "h5_data st = Some d \<Longrightarrow> h5_load fs st = (Inr (), st)"
  by (simp add: h5_load_def)

lemma h5_size_loaded: "h5_data st = Some d \<Longrightarrow> h5_size fs st = (Inr (int (length d)), st)"
  by (simp add: h5_size_def h5_load_loaded)

lemma pq_load_loaded: "pq_file st = Some f \<Longrightarrow> pq_load fs st = (Inr (), st)"
  by (simp add: pq_load_def)

lemma pq_size_loaded: "pq_file st = Some f \<Longrightarrow> pq_size fs st = (Inr (num_rows f), st)"
  by (simp add: pq_size_def pq_load_loaded)

lemma h5_size_current: "h5_size fs st = (r, st1) \<Longrightarrow> h5_current st1 = h5_current st"
  by (auto simp: h5_size_def h5_load_def bind_res_def split: if_splits option.splits)

lemma pq_size_current: "pq_size fs st = (r, st1) \<Longrightarrow> pq_current st1 = pq_current st"
  by (auto simp: pq_size_def pq_load_def bind_res_def split: if_splits option.splits)

lemma h5_seek_range:
  assumes "h5_size fs st = (Inr n, st1)"
  shows "h5_seek fs st off =
           (if off < 0 then (Inl (PyException ''Offset must be greater than or equal to 0''), st)
            else if off \<ge> n then (Inl (PyException ''Offset must be less than the data set size''), st1)
            else (Inr (), st1\<lparr>h5_current := off\<rparr>))"
  using assms by (simp add: h5_seek_def BEGINNING_def)

lemma pq_seek_range:
  assumes "pq_size fs st = (Inr n, st1)"
  shows "pq_seek fs st off =
           (if off < 0 then (Inl (PyException ''Offset must be greater than or equal to 0''), st)
            else if off \<ge> n then (Inl (PyException ''Offset must be less than the data set size''), st1)
            else (Inr (), st1\<lparr>pq_current := off\<rparr>))"
  using assms by (simp add: pq_seek_def BEGINNING_def)

lemma int_from_bytes_little_nonneg: "0 \<le> int_from_bytes_little bs"
  by (induction bs) auto

lemma get_data_size_cases:
  "get_data_size p = Inr n \<Longrightarrow> n = 1 \<or> n = 4"
  by (auto simp: get_data_size_def BYTES_PER_U8INT_def BYTES_PER_FLOAT_def split: sum.splits if_splits)

lemma init_internal_params_wf:
  "ba_wf st \<Longrightarrow> ba_wf (snd (init_internal_params fs st))"
  by (auto simp: init_internal_params_def ba_wf_def Let_def int_from_bytes_little_nonneg
      dest: get_data_size_cases split: option.splits prod.splits sum.splits)

lemma ba_load_wf: "ba_wf st \<Longrightarrow> ba_wf (snd (ba_load fs st))"
  by (simp add: ba_load_def init_internal_params_wf)

lemma init_internal_params_current:
  "ba_current (snd (init_internal_params fs st)) = ba_current st"
  by (auto simp: init_internal_params_def Let_def split: option.splits prod.splits sum.splits)

lemma init_internal_params_file:
  "fst (init_internal_params fs st) = Inr () \<Longrightarrow> \<exists>f. ba_file (snd (init_internal_params fs st)) = Some f"
  by (auto simp: init_internal_params_def Let_def split: option.splits prod.splits sum.splits if_splits)

lemma ba_load_current: "ba_current (snd (ba_load fs st)) = ba_current st"
  by (simp add: ba_load_def init_internal_params_current)

lemma ba_load_file: "fst (ba_load fs st) = Inr () \<Longrightarrow> \<exists>f. ba_file (snd (ba_load fs st)) = Some f"
  by (cases "ba_file st") (auto simp: ba_load_def dest: init_internal_params_file)

lemma ba_seek_range:
  assumes wf: "ba_wf st" and sz: "ba_size fs st = (Inr n, st1)"
  shows "(off < 0 \<or> off \<ge> n \<longrightarrow>
            (\<exists>e. fst (ba_seek fs st off) = Inl e \<and> is_RangeError e) \<and>
            ba_current (snd (ba_seek fs st off)) = ba_current st) \<and>
         (0 \<le> off \<and> off < n \<longrightarrow>
            fst (ba_seek fs st off) = Inr () \<and> ba_current (snd (ba_seek fs st off)) = off)"
proof -
  from sz have l: "ba_load fs st = (Inr (), st1)" and n: "n = num_points st1"
    by (auto simp: ba_size_def bind_res_def split: prod.splits sum.splits)
  from l ba_load_file [of fs st] obtain f where f: "ba_file st1 = Some f" by auto
  from l ba_load_wf [OF wf, of fs] have wf1: "ba_wf st1" by simp
  from l ba_load_current [of fs st] have c: "ba_current st1 = ba_current st" by simp
  have nn: "0 \<le> off \<Longrightarrow> \<not> (8 + dimension st1 * bytes_per_num st1 * off < 0)"
  proof -
    assume "0 \<le> off"
    with wf1 have "0 \<le> dimension st1 * bytes_per_num st1 * off"
      by (simp add: ba_wf_def)
    then show ?thesis by simp
  qed
  show ?thesis
    using nn by (auto simp add: ba_seek_def l ba_size_open [OF f] n f c BEGINNING_def file_seek_def
      DATA_SET_HEADER_LENGTH_def)
qed


text \<open>
  C8. For every reader whose \<open>size()\<close> succeeds with value \<open>n\<close> (the file can be loaded, or is
  loaded already): \<open>seek(offset)\<close> raises the range exception exactly when \<open>offset < 0\<close> or
  \<open>offset \<ge> n\<close>, and then the cursor is what it was; otherwise it returns normally and
  the cursor is \<open>offset\<close>. With \<open>n = 0\<close> every offset is rejected.
\<close>

theorem seek_range_error:
  "(h5_size fsh sth = (Inr nh, sth1) \<longrightarrow>
      (offh < 0 \<or> offh \<ge> nh \<longrightarrow>
         (\<exists>e. fst (h5_seek fsh sth offh) = Inl e \<and> is_RangeError e) \<and>
         h5_current (snd (h5_seek fsh sth offh)) = h5_current sth) \<and>
      (0 \<le> offh \<and> offh < nh \<longrightarrow>
         fst (h5_seek fsh sth offh) = Inr () \<and>
         h5_current (snd (h5_seek fsh sth offh)) = offh)) \<and>
   (pq_size fsp stp = (Inr np, stp1) \<longrightarrow>
      (offp < 0 \<or> offp \<ge> np \<longrightarrow>
         (\<exists>e. fst (pq_seek fsp stp offp) = Inl e \<and> is_RangeError e) \<and>
         pq_current (snd (pq_seek fsp stp offp)) = pq_current stp) \<and>
      (0 \<le> offp \<and> offp < np \<longrightarrow>
         fst (pq_seek fsp stp offp) = Inr () \<and>
         pq_current (snd (pq_seek fsp stp offp)) = offp)) \<and>
   (ba_wf stb \<and> ba_size fsb stb = (Inr nb, stb1) \<longrightarrow>
      (offb < 0 \<or> offb \<ge> nb \<longrightarrow>
         (\<exists>e. fst (ba_seek fsb stb offb) = Inl e \<and> is_RangeError e) \<and>
         ba_current (snd (ba_seek fsb stb offb)) = ba_current stb) \<and>
      (0 \<le> offb \<and> offb < nb \<longrightarrow>
         fst (ba_seek fsb stb offb) = Inr () \<and>
         ba_current (snd (ba_seek fsb stb offb)) = offb))"
proof (intro conjI impI)
  assume a: "h5_size fsh sth = (Inr nh, sth1)"
  note c = h5_size_current [OF a]
  { assume "offh < 0 \<or> offh \<ge> nh"
    then show "\<exists>e. fst (h5_seek fsh sth offh) = Inl e \<and> is_RangeError e"
      and "h5_current (snd (h5_seek fsh sth offh)) = h5_current sth"
      using c by (auto simp: h5_seek_range [OF a]) }
  { assume "0 \<le> offh \<and> offh < nh"
    then show "fst (h5_seek fsh sth offh) = Inr ()"
      and "h5_current (snd (h5_seek fsh sth offh)) = offh"
      by (auto simp: h5_seek_range [OF a]) }
next
  assume a: "pq_size fsp stp = (Inr np, stp1)"
  note c = pq_size_current [OF a]
  { assume "offp < 0 \<or> offp \<ge> np"
    then show "\<exists>e. fst (pq_seek fsp stp offp) = Inl e \<and> is_RangeError e"
      and "pq_current (snd (pq_seek fsp stp offp)) = pq_current stp"
      using c by (auto simp: pq_seek_range [OF a]) }
  { assume "0 \<le> offp \<and> offp < np"
    then show "fst (pq_seek fsp stp offp) = Inr ()"
      and "pq_current (snd (pq_seek fsp stp offp)) = offp"
      by (auto simp: pq_seek_range [OF a]) }
next
  assume a: "ba_wf stb \<and> ba_size fsb stb = (Inr nb, stb1)"
  then have r: "(offb < 0 \<or> offb \<ge> nb \<longrightarrow>
            (\<exists>e. fst (ba_seek fsb stb offb) = Inl e \<and> is_RangeError e) \<and>
            ba_current (snd (ba_seek fsb stb offb)) = ba_current stb) \<and>
         (0 \<le> offb \<and> offb < nb \<longrightarrow>
            fst (ba_seek fsb stb offb) = Inr () \<and> ba_current (snd (ba_seek fsb stb offb)) = offb)"
    using ba_seek_range by blast
  { assume "offb < 0 \<or> offb \<ge> nb"
    with r show "\<exists>e. fst (ba_seek fsb stb offb) = Inl e \<and> is_RangeError e"
      and "ba_current (snd (ba_seek fsb stb offb)) = ba_current stb" by blast+ }
  { assume "0 \<le> offb \<and> offb < nb"
    with r show "fst (ba_seek fsb stb offb) = Inr ()"
      and "ba_current (snd (ba_seek fsb stb offb)) = offb" by blast+ }
qed


lemma examples_constructed:
  "HDF5DataSet_init ''empty.hdf5'' (Some INDEX) = Inr h5_empty_new"
  "HDF5DataSet_init ''data.hdf5'' (Some INDEX) = Inr h5_example_new"
  "ParquetDataSet_init ''data.parquet'' (Some ''emb'') = Inr pq_example_new"
  by (simp_all add: HDF5DataSet_init_def parse_context_def h5_empty_new_def h5_example_new_def
      ParquetDataSet_init_def pq_example_new_def BEGINNING_def)

lemma ba_load_fbin_example:
  "ba_load [''data.fbin'' \<mapsto> fbin_example] (BigANNVectorDataSet_init ''data.fbin'') = (Inr (), fbin_loaded)"
  unfolding ba_load_def fbin_loaded_def init_fbin_example [symmetric]
  by (simp add: BigANNVectorDataSet_init_def)

text \<open>
  The three cases at concrete inputs: offset 0 on an empty HDF5 field is rejected, offset 3
  on a parquet file of 5 rows is accepted, offset 2 on a flat file of 2 points is rejected.
\<close>

theorem seek_range_error_witness:
  "(\<exists>e. fst (h5_seek h5_empty_fs h5_empty_new 0) = Inl e \<and> is_RangeError e) \<and>
   h5_current (snd (h5_seek h5_empty_fs h5_empty_new 0)) = 0 \<and>
   fst (pq_seek pq_example_fs pq_example_new 3) = Inr () \<and>
   pq_current (snd (pq_seek pq_example_fs pq_example_new 3)) = 3 \<and>
   (\<exists>e. fst (ba_seek [''data.fbin'' \<mapsto> fbin_example] (BigANNVectorDataSet_init ''data.fbin'') 2) = Inl e
        \<and> is_RangeError e) \<and>
   ba_current (snd (ba_seek [''data.fbin'' \<mapsto> fbin_example] (BigANNVectorDataSet_init ''data.fbin'') 2)) = 0"
proof -
  have h: "h5_size h5_empty_fs h5_empty_new = (Inr 0, h5_empty_new\<lparr>h5_data := Some []\<rparr>)"
    by (simp add: h5_size_def h5_load_def h5_empty_fs_def h5_empty_new_def)
  have p: "pq_size pq_example_fs pq_example_new =
             (Inr 5, pq_example_new\<lparr>pq_file := Some pq_example_file,
                       batch_iterator := Some (batches pq_example_file), prev_batch := [],
                       file_batch_start := 0, file_batch_end := 0\<rparr>)"
    by (simp add: pq_size_def pq_load_def pq_example_fs_def pq_example_new_def pq_example_file_def)
  have b: "ba_wf (BigANNVectorDataSet_init ''data.fbin'') \<and>
           ba_size [''data.fbin'' \<mapsto> fbin_example] (BigANNVectorDataSet_init ''data.fbin'') = (Inr 2, fbin_loaded)"
    by (simp add: ba_size_def ba_load_fbin_example) (simp add: ba_wf_def BigANNVectorDataSet_init_def fbin_loaded_def)
  have c: "h5_current h5_empty_new = 0" "ba_current (BigANNVectorDataSet_init ''data.fbin'') = 0"
    by (simp_all add: h5_empty_new_def BigANNVectorDataSet_init_def BEGINNING_def)
  show ?thesis
    using seek_range_error [where fsh = h5_empty_fs and sth = h5_empty_new and nh = 0 and offh = 0
        and fsp = pq_example_fs and stp = pq_example_new and np = 5 and offp = 3
        and fsb = "[''data.fbin'' \<mapsto> fbin_example]" and stb = "BigANNVectorDataSet_init ''data.fbin''"
        and nb = 2 and offb = 2, unfolded h p]
      b c
    by simp
qed


text \<open>
  C6 as stated fails for the hierarchical and the flat reader: after \<open>reset()\<close> the
  loaded HDF5 field and the open file are still held, and \<open>size()\<close> answers from them
  even on a file system in which the path no longer exists, where re-opening would fail.
\<close>

theorem reset_keeps_cache_counterexample:
  "h5_data (h5_reset (h5_example_new\<lparr>h5_current := 2, h5_data := Some [10, 11, 12]\<rparr>)) = Some [10, 11, 12] \<and>
   fst (h5_size Map.empty (h5_reset (h5_example_new\<lparr>h5_current := 2, h5_data := Some [10, 11, 12]\<rparr>))) = Inr 3 \<and>
   ba_file (snd (ba_reset (fbin_loaded\<lparr>ba_current := 1\<rparr>))) = Some \<lparr>contents = fbin_example, pos = 8\<rparr> \<and>
   fst (ba_size Map.empty (snd (ba_reset (fbin_loaded\<lparr>ba_current := 1\<rparr>)))) = Inr 2"
  by (simp add: h5_reset_def h5_size_def h5_load_def h5_example_new_def ba_reset_def fbin_loaded_def
      file_seek_def DATA_SET_HEADER_LENGTH_def ba_size_def ba_load_def)

text \<open>
  C6, amended. \<open>reset()\<close> sets the cursor to 0 in every reader. The columnar reader also
  drops its file, so that the next load opens the file again and starts the iterator and
  the window afresh. The hierarchical reader changes nothing else (the loaded field is
  kept). The flat reader keeps its open file and its header fields and moves the stream
  to byte 8, just past the header.
\<close>

theorem reset_effect:
  "h5_reset sth = sth\<lparr>h5_current := 0\<rparr> \<and>
   pq_current (pq_reset stp) = 0 \<and> pq_file (pq_reset stp) = None \<and>
   (fsp (pq_dataset_path stp) = Some f \<longrightarrow>
      pq_load fsp (pq_reset stp) =
        (Inr (), stp\<lparr>pq_current := 0, pq_file := Some f, batch_iterator := Some (batches f),
                     prev_batch := [], file_batch_start := 0, file_batch_end := 0\<rparr>)) \<and>
   (ba_file stb = None \<longrightarrow> ba_reset stb = (Inr (), stb\<lparr>ba_current := 0\<rparr>)) \<and>
   (ba_file stb = Some fh \<longrightarrow>
      ba_reset stb = (Inr (), stb\<lparr>ba_file := Some (fh\<lparr>pos := 8\<rparr>), ba_current := 0\<rparr>))"
  by (simp add: h5_reset_def pq_reset_def pq_load_def ba_reset_def file_seek_def BEGINNING_def
      DATA_SET_HEADER_LENGTH_def)

text \<open>
  The columnar and the flat case at concrete states.
\<close>

theorem reset_effect_witness:
  "pq_load pq_example_fs (pq_reset (pq_example_new\<lparr>pq_current := 3, pq_file := Some pq_example_file,
       batch_iterator := Some [], prev_batch := [12, 13, 14], file_batch_start := 2, file_batch_end := 5\<rparr>)) =
     (Inr (), pq_example_new\<lparr>pq_file := Some pq_example_file, batch_iterator := Some [[10, 11], [12, 13, 14]]\<rparr>) \<and>
   ba_reset (BigANNVectorDataSet_init ''data.fbin'') = (Inr (), BigANNVectorDataSet_init ''data.fbin'') \<and>
   ba_reset (fbin_loaded\<lparr>ba_file := Some \<lparr>contents = fbin_example, pos = 16\<rparr>, ba_current := 1\<rparr>) = (Inr (), fbin_loaded)"
  using reset_effect [where stp = "pq_example_new\<lparr>pq_current := 3, pq_file := Some pq_example_file,
       batch_iterator := Some [], prev_batch := [12, 13, 14], file_batch_start := 2, file_batch_end := 5\<rparr>"
      and fsp = pq_example_fs and f = pq_example_file and sth = h5_example_new
      and stb = "BigANNVectorDataSet_init ''data.fbin''" and fh = "\<lparr>contents = [], pos = 0\<rparr>"]
    reset_effect [where stb = "fbin_loaded\<lparr>ba_file := Some \<lparr>contents = fbin_example, pos = 16\<rparr>, ba_current := 1\<rparr>"
      and fh = "\<lparr>contents = fbin_example, pos = 16\<rparr>" and sth = h5_example_new
      and stp = pq_example_new and fsp = pq_example_fs and f = pq_example_file]
  by (simp add: pq_example_fs_def pq_example_new_def pq_example_file_def BigANNVectorDataSet_init_def
      fbin_loaded_def BEGINNING_def)

text \<open>
  C9 as stated fails: an unrecognized context makes the constructor of the hierarchical
  reader raise a plain \<open>Exception\<close>, and the flat reader accepts the empty path; its first
  use then fails with the error of \<open>open\<close>. None of them is a \<open>ConfigurationError\<close>.
\<close>

theorem configuration_error_counterexample:
  "\<not> raises_ConfigurationError (HDF5DataSet_init ''data.hdf5'' None :: error + nat HDF5DataSet) \<and>
   \<not> raises_ConfigurationError (get_data_set ''bigann'' [] None None :: error + nat data_set) \<and>
   \<not> raises_ConfigurationError (fst (ba_read Map.empty (BigANNVectorDataSet_init []) 1))"
  by (simp add: HDF5DataSet_init_def parse_context_def get_data_set_def ba_read_def ba_load_def
      init_internal_params_def BigANNVectorDataSet_init_def)

text \<open>
  C9, amended. The columnar reader raises \<open>ConfigurationError\<close> at construction for an empty
  path and for a missing or empty column, also through the factory, and the factory raises
  \<open>ConfigurationError\<close> for an unrecognized format name. An unrecognized context makes the
  hierarchical reader's constructor raise the plain exception \<open>Unsupported context\<close>. The
  hierarchical and the flat reader do not check the path: with the empty path they are
  constructed, and the first read fails with the error of opening the file, which is not
  a \<open>ConfigurationError\<close> (for the flat reader the \<open>FileNotFoundError\<close> of \<open>open\<close>).
\<close>

theorem construction_errors:
  "ParquetDataSet_init [] column =
     (Inl (ConfigurationError ''dataset path cannot be None or empty'') :: error + 'a ParquetDataSet) \<and>
   (path \<noteq> [] \<and> (column = None \<or> column = Some []) \<longrightarrow>
      ParquetDataSet_init path column =
        (Inl (ConfigurationError ''dataset column name cannot be None or empty'') :: error + 'a ParquetDataSet)) \<and>
   (path = [] \<or> column = None \<or> column = Some [] \<longrightarrow>
      raises_ConfigurationError (get_data_set ''parquet'' path ctx column :: error + 'a data_set)) \<and>
   (fmt \<noteq> ''hdf5'' \<and> fmt \<noteq> ''bigann'' \<and> fmt \<noteq> ''parquet'' \<longrightarrow>
      get_data_set fmt path ctx column =
        (Inl (ConfigurationError ''Invalid data set format'') :: error + 'a data_set)) \<and>
   HDF5DataSet_init path None = (Inl (PyException ''Unsupported context'') :: error + 'a HDF5DataSet) \<and>
   get_data_set ''hdf5'' path None column =
     (Inl (PyException ''Unsupported context'') :: error + 'a data_set) \<and>
   (\<exists>st :: 'a HDF5DataSet. HDF5DataSet_init [] (Some c) = Inr st \<and>
      (fsh [] = None \<longrightarrow>
         (\<exists>e. fst (h5_read fsh st n) = Inl e) \<and>
         \<not> raises_ConfigurationError (fst (h5_read fsh st n)))) \<and>
   get_data_set ''bigann'' [] ctx column =
     (Inr (DS_BigANN (BigANNVectorDataSet_init [])) :: error + 'a data_set) \<and>
   (fsb [] = None \<longrightarrow> fst (ba_read fsb (BigANNVectorDataSet_init []) n) = Inl FileNotFoundError)"
proof -
  have ctx: "\<exists>s. parse_context (Some c) = Inr s"
    by (cases c) (simp_all add: parse_context_def)
  have h5: "\<exists>st :: 'a HDF5DataSet. HDF5DataSet_init [] (Some c) = Inr st \<and>
      (fsh [] = None \<longrightarrow>
         (\<exists>e. fst (h5_read fsh st n) = Inl e) \<and>
         \<not> raises_ConfigurationError (fst (h5_read fsh st n)))"
    using ctx by (auto simp: HDF5DataSet_init_def h5_read_def h5_load_def)
  have pq: "path = [] \<or> column = None \<or> column = Some [] \<longrightarrow>
      raises_ConfigurationError (get_data_set ''parquet'' path ctx column :: error + 'a data_set)"
    by (auto simp: get_data_set_def ParquetDataSet_init_def)
  have ba: "fsb [] = None \<longrightarrow> fst (ba_read fsb (BigANNVectorDataSet_init []) n) = Inl FileNotFoundError"
    by (simp add: ba_read_def ba_load_def init_internal_params_def BigANNVectorDataSet_init_def)
  show ?thesis
    using h5 pq ba
    by (auto simp: ParquetDataSet_init_def get_data_set_def HDF5DataSet_init_def parse_context_def)
qed

text \<open>
  The guarded cases at concrete arguments.
\<close>

theorem construction_errors_witness:
  "ParquetDataSet_init ''data.parquet'' (Some []) =
     (Inl (ConfigurationError ''dataset column name cannot be None or empty'') :: error + nat ParquetDataSet) \<and>
   raises_ConfigurationError (get_data_set ''parquet'' [] None (Some ''emb'') :: error + nat data_set) \<and>
   get_data_set ''csv'' ''data.csv'' None None =
     (Inl (ConfigurationError ''Invalid data set format'') :: error + nat data_set) \<and>
   (\<exists>st :: nat HDF5DataSet. HDF5DataSet_init [] (Some INDEX) = Inr st \<and>
      (\<exists>e. fst (h5_read Map.empty st 1) = Inl e) \<and>
      \<not> raises_ConfigurationError (fst (h5_read Map.empty st 1))) \<and>
   fst (ba_read Map.empty (BigANNVectorDataSet_init []) 1) = Inl FileNotFoundError"
  using construction_errors [where path = "''data.parquet''" and column = "Some []" and 'a = nat]
    construction_errors [where path = "[]" and column = "Some ''emb''" and ctx = None and 'a = nat]
    construction_errors [where fmt = "''csv''" and path = "''data.csv''" and ctx = None
      and column = None and 'a = nat]
    construction_errors [where fsb = Map.empty and fsh = Map.empty and c = INDEX and n = 1
      and 'a = nat]
  by simp

lemma get_extension_eq:
  "get_extension p =
     (if last_dot_part p = ''fbin'' \<or> last_dot_part p = ''u8bin'' then Inr (last_dot_part p)
      else Inl (InvalidExtensionException (last_dot_part p)))"
  by (auto simp: get_extension_def SUPPORTED_EXTENSION_def FBIN_EXTENSION_def U8BIN_EXTENSION_def)

lemma get_data_size_eq:
  "get_data_size p =
     (if last_dot_part p = ''u8bin'' then Inr 1
      else if last_dot_part p = ''fbin'' then Inr 4
      else Inl (InvalidExtensionException (last_dot_part p)))"
  by (simp add: get_data_size_def get_extension_eq FBIN_EXTENSION_def U8BIN_EXTENSION_def
      BYTES_PER_U8INT_def BYTES_PER_FLOAT_def)

lemma value_reader_eq:
  "value_reader p =
     (if last_dot_part p = ''u8bin'' then Inr u8_reader
      else if last_dot_part p = ''fbin'' then Inr f_reader
      else Inl (InvalidExtensionException (last_dot_part p)))"
  by (simp add: value_reader_def get_extension_eq FBIN_EXTENSION_def U8BIN_EXTENSION_def)

lemma init_internal_params_eq:
  assumes "fs (ba_dataset_path st) = Some bytes"
  shows "init_internal_params fs st =
     (let ext = last_dot_part (ba_dataset_path st);
          np = int_from_bytes_little (take 4 bytes);
          dim = int_from_bytes_little (take 4 (drop 4 bytes));
          st1 = st\<lparr>ba_file := Some \<lparr>contents = bytes, pos = 0\<rparr>\<rparr>;
          st2 = st\<lparr>ba_file := Some \<lparr>contents = bytes, pos = 8\<rparr>, num_points := np, dimension := dim\<rparr>
      in if int (length bytes) < 8 then
           (Inl (PyException ''Invalid file: file size cannot be less than 8 bytes''), st1)
         else if ext \<noteq> ''u8bin'' \<and> ext \<noteq> ''fbin'' then
           (Inl (InvalidExtensionException ext), st2)
         else if int (length bytes) - 8 \<noteq> np * dim * (if ext = ''u8bin'' then 1 else 4) then
           (Inl (PyException ''Invalid file. File size is not matching with expected estimated value based on number of points, dimension and bytes per point''),
            st2\<lparr>bytes_per_num := (if ext = ''u8bin'' then 1 else 4)\<rparr>)
         else
           (Inr (), st2\<lparr>bytes_per_num := (if ext = ''u8bin'' then 1 else 4),
                        reader := Some (if ext = ''u8bin'' then u8_reader else f_reader)\<rparr>))"
proof (cases "int (length bytes) < 8")
  case True
  with assms show ?thesis
    by (simp add: init_internal_params_def Let_def DATA_SET_HEADER_LENGTH_def)
next
  case False
  then have len: "8 \<le> length bytes" by simp
  have r1: "file_read \<lparr>contents = bytes, pos = 0\<rparr> 4 = (take 4 bytes, \<lparr>contents = bytes, pos = 4\<rparr>)"
    using len by (simp add: file_read_def Let_def)
  have r2: "file_read \<lparr>contents = bytes, pos = 4\<rparr> 4 =
              (take 4 (drop 4 bytes), \<lparr>contents = bytes, pos = 8\<rparr>)"
    using len by (simp add: file_read_def Let_def)
  obtain np dim where np: "int_from_bytes_little (take 4 bytes) = np"
    and dim: "int_from_bytes_little (take 4 (drop 4 bytes)) = dim"
    by simp
  show ?thesis
    unfolding init_internal_params_def Let_def assms option.case r1 r2 prod.case
      get_data_size_eq value_reader_eq DATA_SET_HEADER_LENGTH_def np dim
    using False by simp
qed


lemma read_vector_keeps:
  "header_fields (snd (read_vector st)) = header_fields st \<and>
   (ba_open st \<longrightarrow> ba_open (snd (read_vector st)))"
  by (simp add: read_vector_def header_fields_def ba_open_def split: option.splits prod.splits)

lemma read_vectors_keeps:
  "header_fields (snd (read_vectors n st)) = header_fields st \<and>
   (ba_open st \<longrightarrow> ba_open (snd (read_vectors n st)))"
proof (induction n arbitrary: st)
  case 0
  show ?case by simp
next
  case (Suc n)
  obtain r st1 where rv: "read_vector st = (r, st1)" by (cases "read_vector st")
  from read_vector_keeps [of st] rv
  have k1: "header_fields st1 = header_fields st" "ba_open st \<longrightarrow> ba_open st1" by simp_all
  show ?case
  proof (cases r)
    case (Inl e)
    with rv k1 show ?thesis by simp
  next
    case (Inr v)
    obtain r2 st2 where rvs: "read_vectors n st1 = (r2, st2)" by (cases "read_vectors n st1")
    from Suc.IH [of st1] rvs k1
    have "header_fields st2 = header_fields st" "ba_open st \<longrightarrow> ba_open st2" by simp_all
    with rv Inr rvs show ?thesis by (cases r2) simp_all
  qed
qed

lemma ba_read_keeps:
  assumes "ba_open st"
  shows "header_fields (snd (ba_read fs st c)) = header_fields st \<and> ba_open (snd (ba_read fs st c))"
proof -
  from assms obtain f where f: "ba_file st = Some f" by (auto simp: ba_open_def)
  note sz = ba_size_open [OF f] ba_load_open [OF f]
  have *: "\<And>k e. header_fields (snd (bind_res (read_vectors k st)
              (\<lambda>vectors st5. (Inr (Some vectors), st5\<lparr>ba_current := e\<rparr>)))) = header_fields st \<and>
            ba_open (snd (bind_res (read_vectors k st)
              (\<lambda>vectors st5. (Inr (Some vectors), st5\<lparr>ba_current := e\<rparr>))))"
  proof -
    fix k e
    obtain r st1 where rv: "read_vectors k st = (r, st1)" by (cases "read_vectors k st")
    with read_vectors_keeps [of k st] assms
    have "header_fields st1 = header_fields st" "ba_open st1" by simp_all
    then show "?thesis k e" using rv
      by (cases r) (simp_all add: header_fields_def ba_open_def)
  qed
  show ?thesis
    using assms * by (simp add: ba_read_def sz)
qed

lemma ba_seek_keeps:
  assumes "ba_open st"
  shows "header_fields (snd (ba_seek fs st off)) = header_fields st \<and> ba_open (snd (ba_seek fs st off))"
proof -
  from assms obtain f where f: "ba_file st = Some f" by (auto simp: ba_open_def)
  show ?thesis
    using assms
    by (simp add: ba_seek_def ba_size_open [OF f] ba_load_open [OF f] f file_seek_def
        header_fields_def ba_open_def)
qed

lemma ba_after_keeps:
  assumes "ba_open st"
  shows "header_fields (ba_after fs st c) = header_fields st \<and> ba_open (ba_after fs st c)"
proof (cases c)
  case (Read n)
  with ba_read_keeps [OF assms] show ?thesis by simp
next
  case (Seek off)
  with ba_seek_keeps [OF assms] show ?thesis by simp
next
  case Size
  from assms obtain f where f: "ba_file st = Some f" by (auto simp: ba_open_def)
  with Size assms show ?thesis by (simp add: ba_size_open [OF f])
next
  case Reset
  from assms obtain f where f: "ba_file st = Some f" by (auto simp: ba_open_def)
  with Reset show ?thesis
    by (simp add: ba_reset_def file_seek_def DATA_SET_HEADER_LENGTH_def header_fields_def
        ba_open_def)
qed

lemma ba_calls_keep:
  "ba_open st \<Longrightarrow>
   header_fields (foldl (ba_after fs) st calls) = header_fields st \<and>
   ba_open (foldl (ba_after fs) st calls)"
proof (induction calls arbitrary: st)
  case Nil
  then show ?case by simp
next
  case (Cons c calls)
  from ba_after_keeps [OF Cons.prems, of fs c] Cons.IH [of "ba_after fs st c"]
  show ?case by simp
qed

lemma ba_first_access_fails:
  assumes "ba_file st = None" and "fst (init_internal_params fs st) = Inl e"
  shows "fst (ba_load fs st) = Inl e \<and> fst (ba_size fs st) = Inl e \<and>
         fst (ba_read fs st c) = Inl e \<and> fst (ba_seek fs st off) = Inl e"
proof -
  obtain st1 where "init_internal_params fs st = (Inl e, st1)"
    using assms(2) by (cases "init_internal_params fs st") simp
  with assms(1) have "ba_load fs st = (Inl e, st1)" by (simp add: ba_load_def)
  then show ?thesis by (simp add: ba_size_def ba_read_def ba_seek_def)
qed

text \<open>
  C7. Let the path of a flat reader that has not opened its file yet lead to a file of
  bytes \<open>bytes\<close>, let \<open>ext\<close> be what follows the last dot of the path, \<open>np\<close> and \<open>dim\<close> the
  two little-endian integers of the first 8 bytes, and \<open>bpv\<close> 1 for \<open>u8bin\<close> and 4 for
  \<open>fbin\<close>. If the file is shorter than 8 bytes, or \<open>ext\<close> is neither \<open>u8bin\<close> nor \<open>fbin\<close>, or
  the length minus 8 differs from \<open>np * dim * bpv\<close>, the first access (load, and so
  \<open>size\<close>, \<open>read\<close> and \<open>seek\<close>) raises a format error; otherwise it succeeds, the
  header fields are \<open>(np, dim, bpv)\<close>, the stream stands at byte 8, and the header fields
  stay the same through every later sequence of calls.
\<close>

theorem init_format_check:
  assumes "fs (ba_dataset_path st) = Some bytes" and "ba_file st = None"
  shows
    "let ext = last_dot_part (ba_dataset_path st);
         np = int_from_bytes_little (take 4 bytes);
         dim = int_from_bytes_little (take 4 (drop 4 bytes));
         bpv = (if ext = ''u8bin'' then 1 else 4);
         bad = (int (length bytes) < 8 \<or> (ext \<noteq> ''u8bin'' \<and> ext \<noteq> ''fbin'') \<or>
                int (length bytes) - 8 \<noteq> np * dim * bpv)
     in (bad \<longrightarrow>
           (\<exists>e. is_FormatError e \<and> fst (ba_load fs st) = Inl e \<and> fst (ba_size fs st) = Inl e \<and>
                fst (ba_read fs st c) = Inl e \<and> fst (ba_seek fs st off) = Inl e)) \<and>
        (\<not> bad \<longrightarrow>
           fst (ba_load fs st) = Inr () \<and>
           header_fields (snd (ba_load fs st)) = (np, dim, bpv) \<and>
           ba_file (snd (ba_load fs st)) = Some \<lparr>contents = bytes, pos = 8\<rparr> \<and>
           (\<forall>fs' calls.
              header_fields (foldl (ba_after fs') (snd (ba_load fs st)) calls) = (np, dim, bpv)))"
proof -
  define ext where "ext = last_dot_part (ba_dataset_path st)"
  define np where "np = int_from_bytes_little (take 4 bytes)"
  define dim where "dim = int_from_bytes_little (take 4 (drop 4 bytes))"
  define bpv :: int where "bpv = (if ext = ''u8bin'' then 1 else 4)"
  define bad where "bad = (int (length bytes) < 8 \<or> (ext \<noteq> ''u8bin'' \<and> ext \<noteq> ''fbin'') \<or>
                int (length bytes) - 8 \<noteq> np * dim * bpv)"
  note eq = init_internal_params_eq [where fs = fs and st = st and bytes = bytes, OF assms(1), unfolded Let_def, folded ext_def np_def dim_def,
      folded bpv_def]
  have l: "ba_load fs st = init_internal_params fs st"
    using assms(2) by (simp add: ba_load_def)
  have A: "\<exists>e. is_FormatError e \<and> fst (ba_load fs st) = Inl e \<and> fst (ba_size fs st) = Inl e \<and>
                fst (ba_read fs st c) = Inl e \<and> fst (ba_seek fs st off) = Inl e" if bad
  proof -
    from that have "\<exists>e. is_FormatError e \<and> fst (init_internal_params fs st) = Inl e"
      unfolding bad_def eq by auto
    then obtain e where e: "is_FormatError e" "fst (init_internal_params fs st) = Inl e" by blast
    from ba_first_access_fails [OF assms(2) e(2)] e(1) show ?thesis by blast
  qed
  have B: "fst (ba_load fs st) = Inr () \<and>
           header_fields (snd (ba_load fs st)) = (np, dim, bpv) \<and>
           ba_file (snd (ba_load fs st)) = Some \<lparr>contents = bytes, pos = 8\<rparr> \<and>
           (\<forall>fs' calls.
              header_fields (foldl (ba_after fs') (snd (ba_load fs st)) calls) = (np, dim, bpv))"
    if "\<not> bad"
  proof -
    from that have s: "init_internal_params fs st =
        (Inr (), st\<lparr>ba_file := Some \<lparr>contents = bytes, pos = 8\<rparr>, num_points := np, dimension := dim,
                    bytes_per_num := bpv, reader := Some (if ext = ''u8bin'' then u8_reader else f_reader)\<rparr>)"
      unfolding bad_def eq by auto
    have h: "header_fields (snd (ba_load fs st)) = (np, dim, bpv)" and o: "ba_open (snd (ba_load fs st))"
      by (simp_all add: l s header_fields_def ba_open_def)
    from ba_calls_keep [OF o] h
    have "\<forall>fs' calls. header_fields (foldl (ba_after fs') (snd (ba_load fs st)) calls) = (np, dim, bpv)"
      by simp
    with h show ?thesis by (simp add: l s)
  qed
  from A B show ?thesis
    unfolding Let_def ext_def [symmetric] np_def [symmetric] dim_def [symmetric]
      bpv_def [symmetric] bad_def [symmetric]
    by blast
qed


lemma last_dot_part_data_fbin: "last_dot_part ''data.fbin'' = ''fbin''"
  by (simp add: last_dot_part_def)

text \<open>
  The example file is accepted with header fields (2, 2, 4); the same file cut 7 bytes
  short is rejected with a format error.
\<close>

theorem init_format_check_witness:
  "fst (ba_load [''data.fbin'' \<mapsto> fbin_example] (BigANNVectorDataSet_init ''data.fbin'')) = Inr () \<and>
   header_fields (snd (ba_load [''data.fbin'' \<mapsto> fbin_example] (BigANNVectorDataSet_init ''data.fbin''))) =
     (2, 2, 4) \<and>
   (\<exists>e. is_FormatError e \<and>
        fst (ba_size [''data.fbin'' \<mapsto> take 17 fbin_example] (BigANNVectorDataSet_init ''data.fbin'')) = Inl e)"
proof -
  have p: "ba_dataset_path (BigANNVectorDataSet_init ''data.fbin'') = ''data.fbin''"
    and n: "ba_file (BigANNVectorDataSet_init ''data.fbin'') = None"
    by (simp_all add: BigANNVectorDataSet_init_def)
  have g: "[''data.fbin'' \<mapsto> fbin_example] (ba_dataset_path (BigANNVectorDataSet_init ''data.fbin'')) =
             Some fbin_example"
    and b: "[''data.fbin'' \<mapsto> take 17 fbin_example] (ba_dataset_path (BigANNVectorDataSet_init ''data.fbin'')) =
             Some (take 17 fbin_example)"
    by (simp_all add: p)
  have v: "int_from_bytes_little (take 4 fbin_example) = 2"
    "int_from_bytes_little (take 4 (drop 4 fbin_example)) = 2"
    "length fbin_example = 24" "take 4 (take 17 fbin_example) = take 4 fbin_example"
    "take 4 (drop 4 (take 17 fbin_example)) = take 4 (drop 4 fbin_example)"
    by (simp_all add: fbin_example_def)
  show ?thesis
    using init_format_check [where fs = "[''data.fbin'' \<mapsto> fbin_example]"
        and st = "BigANNVectorDataSet_init ''data.fbin''" and bytes = fbin_example
        and c = 1 and off = 0, OF g n]
      init_format_check [where fs = "[''data.fbin'' \<mapsto> take 17 fbin_example]"
        and st = "BigANNVectorDataSet_init ''data.fbin''" and bytes = "take 17 fbin_example"
        and c = 1 and off = 0, OF b n]
    by (simp add: Let_def p v last_dot_part_data_fbin) blast
qed

lemma total_rows_simps [simp]:
  "total_rows [] = 0"
  "total_rows (b # bs) = int (length b) + total_rows bs"
  "total_rows (xs @ ys) = total_rows xs + total_rows ys"
  by (simp_all add: total_rows_def)

lemma total_rows_nonneg [simp]: "0 \<le> total_rows bs"
  by (simp add: total_rows_def)

lemma drop_take_append_skip:
  "length b \<le> i \<Longrightarrow> drop i (take j (b @ r)) = drop (i - length b) (take (j - length b) r)"
  by (cases "j \<le> length b") (simp_all add: min_def)

lemma drop_take_append_more:
  "i \<le> length b \<Longrightarrow> length b \<le> j \<Longrightarrow>
   drop i (take j (b @ r)) = drop i b @ take (j - length b) r"
  by simp

lemma py_slice_inside:
  "0 \<le> i \<Longrightarrow> i \<le> int (length xs) \<Longrightarrow> 0 \<le> j \<Longrightarrow> j \<le> int (length xs) \<Longrightarrow>
   py_slice xs i j = drop (nat i) (take (nat j) xs)"
  by (auto simp: py_slice_def slice_index_def min_def nat_le_iff)

lemma py_slice_from_inside:
  "0 \<le> i \<Longrightarrow> i \<le> int (length xs) \<Longrightarrow> py_slice_from xs i = drop (nat i) xs"
  by (auto simp: py_slice_from_def slice_index_def min_def nat_le_iff)

lemma get_batch_next:
  "prev_batch st = [] \<Longrightarrow> batch_iterator st = Some (b # rest) \<Longrightarrow>
   get_batch st = (Inr b, st\<lparr>batch_iterator := Some rest, file_batch_start := file_batch_end st,
                              file_batch_end := file_batch_end st + int (length b)\<rparr>)"
  by (simp add: get_batch_def)

lemma get_batch_held:
  "prev_batch st \<noteq> [] \<Longrightarrow> get_batch st = (Inr (prev_batch st), st)"
  by (simp add: get_batch_def)

lemma extract_loop_next:
  assumes "[] \<notin> set its" and "its \<noteq> []"
    and "prev_batch st = []" and "batch_iterator st = Some its" and "file_batch_end st = we"
    and "s \<le> e" and "we \<le> e" and "e \<le> we + total_rows its"
  shows "\<exists>pre b post. its = pre @ b # post \<and>
           extract_loop st s e acc =
             Some (Inr (acc @ drop (nat (max s we - we)) (take (nat (e - we)) (concat its))),
                   st\<lparr>batch_iterator := Some post,
                      file_batch_start := we + total_rows pre,
                      file_batch_end := we + total_rows pre + int (length b),
                      prev_batch := b\<rparr>) \<and>
           we + total_rows pre \<le> e \<and> e \<le> we + total_rows pre + int (length b)"
  using assms
proof (induction its arbitrary: st s acc we)
  case Nil
  then show ?case by simp
next
  case (Cons b rest)
  let ?n = "int (length b)"
  let ?st1 = "st\<lparr>batch_iterator := Some rest, file_batch_start := we,
                 file_batch_end := we + ?n\<rparr>"
  let ?i = "nat (max s we - we)"
  let ?j = "nat (e - we)"
  have b: "b \<noteq> []" and rest: "[] \<notin> set rest" using Cons.prems(1) by auto
  have gb: "get_batch st = (Inr b, ?st1)"
    using get_batch_next [OF Cons.prems(3) Cons.prems(4)] Cons.prems(5) by simp
  have fields: "file_batch_end ?st1 = we + ?n" "file_batch_start ?st1 = we"
    "prev_batch ?st1 = []" "batch_iterator ?st1 = Some rest"
    using Cons.prems(3) by simp_all
  consider (skip) "s > we + ?n" | (last) "s \<le> we + ?n" "e \<le> we + ?n"
    | (more) "s \<le> we + ?n" "e > we + ?n" by linarith
  then show ?case
  proof cases
    case skip
    have step: "extract_loop st s e acc = extract_loop ?st1 s e acc"
      by (subst extract_loop.simps) (simp add: gb b skip)
    have r: "rest \<noteq> []" using skip Cons.prems by auto
    have pre: "s \<le> e" "we + ?n \<le> e" "e \<le> we + ?n + total_rows rest"
      using skip Cons.prems by simp_all
    from Cons.IH [of ?st1 "we + ?n" s acc, OF rest r fields(3) fields(4) fields(1) pre]
    obtain pre b' post where p: "rest = pre @ b' # post"
      "extract_loop ?st1 s e acc =
         Some (Inr (acc @ drop (nat (max s (we + ?n) - (we + ?n))) (take (nat (e - (we + ?n))) (concat rest))),
               ?st1\<lparr>batch_iterator := Some post,
                      file_batch_start := we + ?n + total_rows pre,
                      file_batch_end := we + ?n + total_rows pre + int (length b'),
                      prev_batch := b'\<rparr>)"
      "we + ?n + total_rows pre \<le> e" "e \<le> we + ?n + total_rows pre + int (length b')"
      by blast
    have a: "nat (max s (we + ?n) - (we + ?n)) = ?i - length b"
      "nat (e - (we + ?n)) = ?j - length b" "length b \<le> ?i"
      using skip by (simp_all add: max_def)
    have eq: "drop (nat (max s (we + ?n) - (we + ?n))) (take (nat (e - (we + ?n))) (concat rest)) =
              drop ?i (take ?j (concat (b # rest)))"
      unfolding a(1,2) using drop_take_append_skip [OF a(3)] by simp
    have st_eq: "?st1\<lparr>batch_iterator := Some post,
                      file_batch_start := we + ?n + total_rows pre,
                      file_batch_end := we + ?n + total_rows pre + int (length b'),
                      prev_batch := b'\<rparr> =
                 st\<lparr>batch_iterator := Some post,
                      file_batch_start := we + total_rows (b # pre),
                      file_batch_end := we + total_rows (b # pre) + int (length b'),
                      prev_batch := b'\<rparr>"
      by (simp add: add.assoc)
    have res: "extract_loop st s e acc =
             Some (Inr (acc @ drop ?i (take ?j (concat (b # rest)))),
                   st\<lparr>batch_iterator := Some post,
                      file_batch_start := we + total_rows (b # pre),
                      file_batch_end := we + total_rows (b # pre) + int (length b'),
                      prev_batch := b'\<rparr>)"
      unfolding step p(2) eq st_eq ..
    have dec: "b # rest = (b # pre) @ b' # post" using p(1) by simp
    have bnd: "we + total_rows (b # pre) \<le> e" "e \<le> we + total_rows (b # pre) + int (length b')"
      using p(3,4) by simp_all
    from dec res bnd show ?thesis by blast
  next
    case last
    have inside: "0 \<le> max s we - we" "max s we - we \<le> ?n" "0 \<le> e - we" "e - we \<le> ?n"
      using last Cons.prems by (simp_all add: max_def)
    have step: "extract_loop st s e acc =
        Some (Inr (acc @ py_slice b (max s we - we) (e - we)), ?st1\<lparr>prev_batch := b\<rparr>)"
      apply (subst extract_loop.simps)
      using last by (simp add: gb b Let_def max_def)
    have a: "?i \<le> length b" "?j \<le> length b" using inside by linarith+
    have eq: "py_slice b (max s we - we) (e - we) = drop ?i (take ?j (concat (b # rest)))"
      using a by (simp add: py_slice_inside [OF inside])
    have st_eq: "?st1\<lparr>prev_batch := b\<rparr> =
                 st\<lparr>batch_iterator := Some rest,
                      file_batch_start := we + total_rows [],
                      file_batch_end := we + total_rows [] + int (length b),
                      prev_batch := b\<rparr>"
      by simp
    have res: "extract_loop st s e acc =
             Some (Inr (acc @ drop ?i (take ?j (concat (b # rest)))),
                   st\<lparr>batch_iterator := Some rest,
                      file_batch_start := we + total_rows [],
                      file_batch_end := we + total_rows [] + int (length b),
                      prev_batch := b\<rparr>)"
      by (simp add: step eq)
    have dec: "b # rest = [] @ b # rest" by simp
    have bnd: "we + total_rows [] \<le> e" "e \<le> we + total_rows [] + int (length b)"
      using last Cons.prems(7) by simp_all
    from dec res bnd show ?thesis by blast
  next
    case more
    let ?s' = "max s we"
    let ?st2 = "?st1\<lparr>prev_batch := []\<rparr>"
    have inside: "0 \<le> ?s' - we" "?s' - we \<le> ?n" using more by (simp_all add: max_def)
    have step: "extract_loop st s e acc =
        extract_loop ?st2 ?s' e (acc @ py_slice_from b (?s' - we))"
      apply (subst extract_loop.simps)
      using more by (simp add: gb b Let_def max_def)
    have r: "rest \<noteq> []" using more Cons.prems by auto
    have pre: "?s' \<le> e" "we + ?n \<le> e" "e \<le> we + ?n + total_rows rest"
      using more Cons.prems by simp_all
    have fields2: "file_batch_end ?st2 = we + ?n" "prev_batch ?st2 = []" "batch_iterator ?st2 = Some rest"
      by simp_all
    from Cons.IH [of ?st2 "we + ?n" ?s' "acc @ py_slice_from b (?s' - we)",
        OF rest r fields2(2) fields2(3) fields2(1) pre]
    obtain pre b' post where p: "rest = pre @ b' # post"
      "extract_loop ?st2 ?s' e (acc @ py_slice_from b (?s' - we)) =
         Some (Inr ((acc @ py_slice_from b (?s' - we)) @
                    drop (nat (max ?s' (we + ?n) - (we + ?n))) (take (nat (e - (we + ?n))) (concat rest))),
               ?st2\<lparr>batch_iterator := Some post,
                      file_batch_start := we + ?n + total_rows pre,
                      file_batch_end := we + ?n + total_rows pre + int (length b'),
                      prev_batch := b'\<rparr>)"
      "we + ?n + total_rows pre \<le> e" "e \<le> we + ?n + total_rows pre + int (length b')"
      by blast
    have a: "nat (max ?s' (we + ?n) - (we + ?n)) = 0"
      "nat (e - (we + ?n)) = ?j - length b" "?i \<le> length b" "length b \<le> ?j"
      using more by (auto simp: max_def)
    have eq: "py_slice_from b (?s' - we) @
                drop (nat (max ?s' (we + ?n) - (we + ?n))) (take (nat (e - (we + ?n))) (concat rest)) =
              drop ?i (take ?j (concat (b # rest)))"
      unfolding a(1,2) using drop_take_append_more [OF a(3,4)]
      by (simp add: py_slice_from_inside [OF inside])
    have st_eq: "?st2\<lparr>batch_iterator := Some post,
                      file_batch_start := we + ?n + total_rows pre,
                      file_batch_end := we + ?n + total_rows pre + int (length b'),
                      prev_batch := b'\<rparr> =
                 st\<lparr>batch_iterator := Some post,
                      file_batch_start := we + total_rows (b # pre),
                      file_batch_end := we + total_rows (b # pre) + int (length b'),
                      prev_batch := b'\<rparr>"
      by (simp add: add.assoc)
    have res: "extract_loop st s e acc =
             Some (Inr (acc @ drop ?i (take ?j (concat (b # rest)))),
                   st\<lparr>batch_iterator := Some post,
                      file_batch_start := we + total_rows (b # pre),
                      file_batch_end := we + total_rows (b # pre) + int (length b'),
                      prev_batch := b'\<rparr>)"
      unfolding step p(2) append_assoc eq st_eq ..
    have dec: "b # rest = (b # pre) @ b' # post" using p(1) by simp
    have bnd: "we + total_rows (b # pre) \<le> e" "e \<le> we + total_rows (b # pre) + int (length b')"
      using p(3,4) by simp_all
    from dec res bnd show ?thesis by blast
  qed
qed

lemma pq_window_okD:
  assumes "pq_window_ok F st"
  shows "pq_file st = Some F \<and>
         (\<exists>pre its. batches F = pre @ its \<and> batch_iterator st = Some its \<and>
            file_batch_end st = total_rows pre \<and>
            (if prev_batch st = [] then total_rows pre \<le> pq_current st
             else pre \<noteq> [] \<and> prev_batch st = last pre \<and>
                  file_batch_start st = total_rows (butlast pre) \<and>
                  file_batch_start st \<le> pq_current st \<and>
                  pq_current st \<le> file_batch_end st))"
proof -
  from assms obtain its where its: "batch_iterator st = Some its"
    by (auto simp: pq_window_ok_def split: option.splits)
  define k where "k = length (batches F) - length its"
  from assms have f: "pq_file st = Some F"
    and c: "case batch_iterator st of
         None \<Rightarrow> False
       | Some its \<Rightarrow>
           let k = length (batches F) - length its;
               pre = take k (batches F)
           in length its \<le> length (batches F) \<and> drop k (batches F) = its \<and>
              file_batch_end st = total_rows pre \<and>
              (if prev_batch st = [] then file_batch_end st \<le> pq_current st
               else pre \<noteq> [] \<and> prev_batch st = last pre \<and>
                    file_batch_start st = total_rows (butlast pre) \<and>
                    file_batch_start st \<le> pq_current st \<and>
                    pq_current st \<le> file_batch_end st)"
    unfolding pq_window_ok_def by blast+
  from c [unfolded its option.case Let_def, folded k_def] f
  have *: "pq_file st = Some F" "drop k (batches F) = its"
    "file_batch_end st = total_rows (take k (batches F))"
    "if prev_batch st = [] then file_batch_end st \<le> pq_current st
     else take k (batches F) \<noteq> [] \<and> prev_batch st = last (take k (batches F)) \<and>
          file_batch_start st = total_rows (butlast (take k (batches F))) \<and>
          file_batch_start st \<le> pq_current st \<and> pq_current st \<le> file_batch_end st"
    by blast+
  have "batches F = take k (batches F) @ its" using *(2) by (metis append_take_drop_id)
  with * its show ?thesis
    by (intro conjI exI [of _ "take k (batches F)"] exI [of _ its]) (auto split: if_splits)
qed

lemma pq_window_okI:
  assumes "pq_file st = Some F" and "batches F = pre @ its" and "batch_iterator st = Some its"
    and "file_batch_end st = total_rows pre"
    and "if prev_batch st = [] then total_rows pre \<le> pq_current st
         else pre \<noteq> [] \<and> prev_batch st = last pre \<and>
              file_batch_start st = total_rows (butlast pre) \<and>
              file_batch_start st \<le> pq_current st \<and> pq_current st \<le> file_batch_end st"
  shows "pq_window_ok F st"
proof -
  have k: "length (batches F) - length its = length pre" using assms(2) by simp
  show ?thesis
    using assms by (simp add: pq_window_ok_def Let_def k split: if_splits)
qed

lemma extract_vectors_window:
  assumes ok: "pq_file_ok F" and inv: "pq_window_ok F st"
    and s: "pq_current st = s" and se: "s \<le> e" and en: "e \<le> num_rows F" and sn: "s < num_rows F"
  shows "\<exists>st'. extract_vectors st s e = Some (Inr (drop (nat s) (take (nat e) (all_rows F))), st') \<and>
           pq_window_ok F (st'\<lparr>pq_current := e\<rparr>)"
proof -
  from pq_window_okD [OF inv] obtain pre its where
    f: "pq_file st = Some F" and dec: "batches F = pre @ its" and it: "batch_iterator st = Some its"
    and we: "file_batch_end st = total_rows pre"
    and w: "if prev_batch st = [] then total_rows pre \<le> pq_current st
             else pre \<noteq> [] \<and> prev_batch st = last pre \<and>
                  file_batch_start st = total_rows (butlast pre) \<and>
                  file_batch_start st \<le> pq_current st \<and> pq_current st \<le> file_batch_end st"
    by blast
  from ok dec have ne: "[] \<notin> set pre" "[] \<notin> set its"
    and n: "num_rows F = total_rows pre + total_rows its"
    by (auto simp: pq_file_ok_def)
  have rows: "all_rows F = concat pre @ concat its" by (simp add: all_rows_def dec)
  have lp: "int (length (concat pre)) = total_rows pre" by (simp add: total_rows_def)
  show ?thesis
  proof (cases "prev_batch st = []")
    case True
    with w s have ws: "total_rows pre \<le> s" by simp
    have its: "its \<noteq> []" using ws sn n by auto
    from extract_loop_next [OF ne(2) its True it we se _ _, of "[]"] ws se en n
    obtain pre' b post where p: "its = pre' @ b # post"
      "extract_loop st s e [] =
         Some (Inr ([] @ drop (nat (max s (total_rows pre) - total_rows pre))
                           (take (nat (e - total_rows pre)) (concat its))),
               st\<lparr>batch_iterator := Some post,
                  file_batch_start := total_rows pre + total_rows pre',
                  file_batch_end := total_rows pre + total_rows pre' + int (length b),
                  prev_batch := b\<rparr>)"
      "total_rows pre + total_rows pre' \<le> e" "e \<le> total_rows pre + total_rows pre' + int (length b)"
      by auto
    let ?st' = "st\<lparr>batch_iterator := Some post,
                  file_batch_start := total_rows pre + total_rows pre',
                  file_batch_end := total_rows pre + total_rows pre' + int (length b),
                  prev_batch := b\<rparr>"
    have a: "nat (max s (total_rows pre) - total_rows pre) = nat s - length (concat pre)"
      "nat (e - total_rows pre) = nat e - length (concat pre)" "length (concat pre) \<le> nat s"
      using ws lp by (auto simp: max_def)
    have eq: "drop (nat (max s (total_rows pre) - total_rows pre))
                (take (nat (e - total_rows pre)) (concat its)) =
              drop (nat s) (take (nat e) (all_rows F))"
      unfolding a(1,2) rows using drop_take_append_skip [OF a(3)] by simp
    have b: "b \<noteq> []" using ne(2) p(1) by auto
    have win: "pq_window_ok F (?st'\<lparr>pq_current := e\<rparr>)"
      by (rule pq_window_okI [where pre = "pre @ pre' @ [b]" and its = post])
        (use f dec p(1,3,4) b in \<open>simp_all add: butlast_append\<close>)
    from p(2) eq win show ?thesis by (auto simp: extract_vectors_def)
  next
    case False
    define b where "b = prev_batch st"
    define pre0 where "pre0 = butlast pre"
    define ws where "ws = total_rows pre0"
    let ?n = "int (length b)"
    from False w s have h: "pre \<noteq> []" "b = last pre" "file_batch_start st = ws"
      "ws \<le> s" "s \<le> file_batch_end st"
      by (simp_all add: b_def pre0_def ws_def)
    have pre: "pre = pre0 @ [b]" using h(1,2) by (simp add: pre0_def)
    have wen: "file_batch_end st = ws + ?n" by (simp add: we pre ws_def)
    have bne: "b \<noteq> []" using False by (simp add: b_def)
    have gb: "get_batch st = (Inr b, st)" using get_batch_held [OF False] by (simp add: b_def)
    have rows': "all_rows F = concat pre0 @ b @ concat its" by (simp add: rows pre)
    have lp0: "int (length (concat pre0)) = ws" by (simp add: total_rows_def ws_def)
    have i1: "0 \<le> s - ws" "s - ws \<le> ?n" using h(4,5) wen by simp_all
    have skip: "drop (nat s) (take (nat e) (all_rows F)) =
                drop (nat (s - ws)) (take (nat (e - ws)) (b @ concat its))"
    proof -
      have a: "length (concat pre0) \<le> nat s" "nat s - length (concat pre0) = nat (s - ws)"
        "nat e - length (concat pre0) = nat (e - ws)"
        using lp0 h(4) se by linarith+
      show ?thesis
        unfolding rows'
        using drop_take_append_skip [OF a(1), of "nat e" "b @ concat its", unfolded a(2,3)] .
    qed
    show ?thesis
    proof (cases "e \<le> file_batch_end st")
      case True
      have i2: "0 \<le> e - ws" "e - ws \<le> ?n" using True wen se h(4) by simp_all
      have step: "extract_loop st s e [] =
          Some (Inr ([] @ py_slice b (s - ws) (e - ws)), st\<lparr>prev_batch := b\<rparr>)"
        apply (subst extract_loop.simps)
        using True h(3,4,5) wen by (simp add: gb bne Let_def)
      have eq: "py_slice b (s - ws) (e - ws) = drop (nat s) (take (nat e) (all_rows F))"
        unfolding skip using i2 by (simp add: py_slice_inside [OF i1 i2])
      have win: "pq_window_ok F (st\<lparr>prev_batch := b\<rparr>\<lparr>pq_current := e\<rparr>)"
        by (rule pq_window_okI [where pre = pre and its = its])
          (use f dec it we h True se bne in \<open>simp_all add: pre0_def ws_def\<close>)
      from step eq win show ?thesis by (auto simp: extract_vectors_def)
    next
      case False
      then have gt: "file_batch_end st < e" by simp
      let ?st2 = "st\<lparr>prev_batch := []\<rparr>"
      let ?acc = "[] @ py_slice_from b (s - ws)"
      have step: "extract_loop st s e [] = extract_loop ?st2 s e ?acc"
        apply (subst extract_loop.simps)
        using gt h(3,4,5) wen by (simp add: gb bne Let_def)
      have its: "its \<noteq> []" using gt en n we by auto
      have f2: "prev_batch ?st2 = []" "batch_iterator ?st2 = Some its"
        "file_batch_end ?st2 = ws + ?n"
        using it wen by simp_all
      have pre2: "s \<le> e" "ws + ?n \<le> e" "e \<le> ws + ?n + total_rows its"
        using se gt wen en n we by simp_all
      from extract_loop_next [OF ne(2) its f2 pre2, of ?acc]
      obtain pre' b' post where p: "its = pre' @ b' # post"
        "extract_loop ?st2 s e ?acc =
           Some (Inr (?acc @ drop (nat (max s (ws + ?n) - (ws + ?n)))
                             (take (nat (e - (ws + ?n))) (concat its))),
                 ?st2\<lparr>batch_iterator := Some post,
                    file_batch_start := ws + ?n + total_rows pre',
                    file_batch_end := ws + ?n + total_rows pre' + int (length b'),
                    prev_batch := b'\<rparr>)"
        "ws + ?n + total_rows pre' \<le> e" "e \<le> ws + ?n + total_rows pre' + int (length b')"
        by blast
      let ?st' = "?st2\<lparr>batch_iterator := Some post,
                    file_batch_start := ws + ?n + total_rows pre',
                    file_batch_end := ws + ?n + total_rows pre' + int (length b'),
                    prev_batch := b'\<rparr>"
      have a: "nat (max s (ws + ?n) - (ws + ?n)) = 0"
        "nat (e - (ws + ?n)) = nat (e - ws) - length b"
        "nat (s - ws) \<le> length b" "length b \<le> nat (e - ws)"
        using h(4,5) gt wen by (auto simp: max_def)
      have eq: "?acc @ drop (nat (max s (ws + ?n) - (ws + ?n)))
                          (take (nat (e - (ws + ?n))) (concat its)) =
                drop (nat s) (take (nat e) (all_rows F))"
        unfolding skip a(1,2) using drop_take_append_more [OF a(3,4)]
        by (simp add: py_slice_from_inside [OF i1])
      have b': "b' \<noteq> []" using ne(2) p(1) by auto
      have win: "pq_window_ok F (?st'\<lparr>pq_current := e\<rparr>)"
        by (rule pq_window_okI [where pre = "pre @ pre' @ [b']" and its = post])
          (use f dec p(1,3,4) b' pre in \<open>simp_all add: butlast_append ws_def\<close>)
      from step p(2) eq win show ?thesis by (auto simp: extract_vectors_def)
    qed
  qed
qed

lemma pq_read_loaded:
  assumes "pq_file st = Some F"
  shows "pq_read fs st c =
     (if pq_current st \<ge> num_rows F then Some (Inr None, st)
      else
        (case extract_vectors st (pq_current st) (min (pq_current st + c) (num_rows F)) of
           None \<Rightarrow> None
         | Some (Inl e, st5) \<Rightarrow> Some (Inl e, st5)
         | Some (Inr vectors, st5) \<Rightarrow>
             Some (Inr (Some vectors), st5\<lparr>pq_current := min (pq_current st + c) (num_rows F)\<rparr>)))"
proof (cases "pq_current st + c > num_rows F")
  case True
  then have m: "min (pq_current st + c) (num_rows F) = num_rows F" by simp
  from True show ?thesis
    unfolding m by (simp add: pq_read_def pq_load_loaded [OF assms] pq_size_loaded [OF assms])
next
  case False
  then have m: "min (pq_current st + c) (num_rows F) = pq_current st + c" by simp
  from False show ?thesis
    unfolding m by (simp add: pq_read_def pq_load_loaded [OF assms] pq_size_loaded [OF assms])
qed

lemma pq_read_window:
  assumes ok: "pq_file_ok F" and inv: "pq_window_ok F st" and c: "0 \<le> c"
    and lt: "pq_current st < num_rows F"
  shows "\<exists>st'. pq_read fs st c =
            Some (Inr (Some (drop (nat (pq_current st))
                               (take (nat (min (pq_current st + c) (num_rows F))) (all_rows F)))), st') \<and>
          pq_current st' = min (pq_current st + c) (num_rows F) \<and> pq_window_ok F st'"
proof -
  from pq_window_okD [OF inv] have f: "pq_file st = Some F" by blast
  let ?e = "min (pq_current st + c) (num_rows F)"
  have b: "pq_current st \<le> ?e" "?e \<le> num_rows F" using c lt by simp_all
  from extract_vectors_window [OF ok inv refl b lt]
  obtain st' where e: "extract_vectors st (pq_current st) ?e =
        Some (Inr (drop (nat (pq_current st)) (take (nat ?e) (all_rows F))), st')"
    and w: "pq_window_ok F (st'\<lparr>pq_current := ?e\<rparr>)"
    by blast
  show ?thesis
    using lt w by (intro exI [of _ "st'\<lparr>pq_current := ?e\<rparr>"]) (simp add: pq_read_loaded [OF f] e)
qed

lemma pq_load_ready:
  assumes "pq_ready fs st F"
  shows "\<exists>st1. pq_load fs st = (Inr (), st1) \<and> pq_window_ok F st1 \<and> pq_current st1 = pq_current st"
proof (cases "pq_file st")
  case None
  with assms have p: "fs (pq_dataset_path st) = Some F" and c: "0 \<le> pq_current st"
    by (simp_all add: pq_ready_def)
  let ?st1 = "st\<lparr>pq_file := Some F, batch_iterator := Some (batches F), prev_batch := [],
                  file_batch_start := 0, file_batch_end := 0\<rparr>"
  have l: "pq_load fs st = (Inr (), ?st1)" using None p by (simp add: pq_load_def)
  have "pq_window_ok F ?st1"
    by (rule pq_window_okI [where pre = "[]" and its = "batches F"]) (use c in simp_all)
  with l show ?thesis by simp
next
  case (Some F')
  with assms have "F' = F" "pq_window_ok F st" by (simp_all add: pq_ready_def)
  with Some show ?thesis by (simp add: pq_load_loaded)
qed

lemma pq_read_after_load:
  assumes "pq_load fs st = (Inr (), st1)"
  shows "pq_read fs st c = pq_read fs st1 c"
proof -
  from assms have "pq_file st1 \<noteq> None"
    by (auto simp: pq_load_def split: if_splits option.splits)
  then obtain F where f: "pq_file st1 = Some F" by blast
  show ?thesis
  proof (cases "pq_current st1 + c > num_rows F")
    case True
    then have m: "min (pq_current st1 + c) (num_rows F) = num_rows F" by simp
    from True show ?thesis
      unfolding pq_read_def [of fs st] assms pq_read_loaded [OF f] m
      by (simp add: pq_size_loaded [OF f])
  next
    case False
    then have m: "min (pq_current st1 + c) (num_rows F) = pq_current st1 + c" by simp
    from False show ?thesis
      unfolding pq_read_def [of fs st] assms pq_read_loaded [OF f] m
      by (simp add: pq_size_loaded [OF f])
  qed
qed

lemma pq_ready_loaded: "pq_file_ok F \<Longrightarrow> pq_window_ok F st \<Longrightarrow> pq_ready fs st F"
proof -
  assume ok: "pq_file_ok F" and w: "pq_window_ok F st"
  from pq_window_okD [OF w] have "pq_file st = Some F" by blast
  with ok w show ?thesis by (simp add: pq_ready_def)
qed

lemma pq_read_ready:
  assumes r: "pq_ready fs st F" and c: "0 \<le> c"
  shows "\<exists>st'. pq_read fs st c =
            Some (Inr (if pq_current st \<ge> num_rows F then None
                       else Some (drop (nat (pq_current st))
                               (take (nat (min (pq_current st + c) (num_rows F))) (all_rows F)))), st') \<and>
          pq_current st' = (if pq_current st \<ge> num_rows F then pq_current st
                            else min (pq_current st + c) (num_rows F)) \<and>
          pq_ready fs st' F"
proof -
  from r have ok: "pq_file_ok F" by (simp add: pq_ready_def)
  from pq_load_ready [OF r] obtain st1 where l: "pq_load fs st = (Inr (), st1)"
    and w: "pq_window_ok F st1" and cur: "pq_current st1 = pq_current st" by blast
  from pq_window_okD [OF w] have f: "pq_file st1 = Some F" by blast
  show ?thesis
  proof (cases "pq_current st \<ge> num_rows F")
    case True
    then show ?thesis
      using cur pq_ready_loaded [OF ok w, of fs]
      by (intro exI [of _ st1]) (simp add: pq_read_after_load [OF l] pq_read_loaded [OF f])
  next
    case False
    with cur have lt: "pq_current st1 < num_rows F" by simp
    from pq_read_window [OF ok w c lt, of fs] False cur pq_ready_loaded [OF ok]
    show ?thesis by (auto simp: pq_read_after_load [OF l])
  qed
qed

lemma pq_reads_ready:
  assumes "pq_ready fs st F" and "\<forall>c\<in>set cs. 0 < c"
  shows "\<exists>st'. pq_reads fs st cs =
           Some (Inr (requested_ranges (all_rows F) (pq_current st) cs), st')"
  using assms
proof (induction cs arbitrary: st)
  case Nil
  then show ?case by simp
next
  case (Cons c cs)
  from Cons.prems have ok: "pq_file_ok F" by (simp add: pq_ready_def)
  then have n: "num_rows F = int (length (all_rows F))"
    by (simp add: pq_file_ok_def all_rows_def total_rows_def)
  from Cons.prems(2) have c: "0 \<le> c" and cs: "\<forall>c\<in>set cs. 0 < c" by auto
  from pq_read_ready [OF Cons.prems(1) c] obtain st1 where
    r: "pq_read fs st c =
            Some (Inr (if pq_current st \<ge> num_rows F then None
                       else Some (drop (nat (pq_current st))
                               (take (nat (min (pq_current st + c) (num_rows F))) (all_rows F)))), st1)"
    and cur: "pq_current st1 = (if pq_current st \<ge> num_rows F then pq_current st
                            else min (pq_current st + c) (num_rows F))"
    and rd: "pq_ready fs st1 F" by blast
  from Cons.IH [OF rd cs] obtain st2 where
    rs: "pq_reads fs st1 cs = Some (Inr (requested_ranges (all_rows F) (pq_current st1) cs), st2)"
    by blast
  show ?case
    by (rule exI [of _ st2]) (simp add: r rs cur n)
qed

lemma ParquetDataSet_init_Inr:
  assumes "ParquetDataSet_init path (Some column) = Inr st0"
  shows "st0 = \<lparr>pq_dataset_path = path, pq_file = None, pq_column = column,
                pq_current = 0, batch_iterator = None, prev_batch = [],
                file_batch_start = 0, file_batch_end = 0\<rparr>"
  using assms by (simp add: ParquetDataSet_init_def BEGINNING_def split: if_splits)

text \<open>
  C5. Let a file yield no empty batch and hold as many rows as it declares. On a columnar
  reader just constructed for it, every sequence of \<open>read\<close> calls with positive chunk
  sizes returns: no call runs forever, none raises, and each call returns the range it
  requested, which starts at row 0 for the first call and where the previous range ended
  for the others (and \<open>None\<close> once the cursor is at the end).
\<close>

theorem sequential_reads_return:
  assumes "pq_file_ok F" and "fs path = Some F"
    and "ParquetDataSet_init path (Some column) = Inr st0"
    and "\<forall>c\<in>set cs. 0 < c"
  shows "\<exists>st'. pq_reads fs st0 cs = Some (Inr (requested_ranges (all_rows F) 0 cs), st')"
proof -
  note st0 = ParquetDataSet_init_Inr [OF assms(3)]
  have "pq_ready fs st0 F" using assms(1,2) by (simp add: pq_ready_def st0)
  from pq_reads_ready [OF this assms(4)] show ?thesis by (simp add: st0)
qed

text \<open>
  On the file with batches of 2 and 3 rows, the chunk sizes 3, 1, 4, 2 are answered with
  rows 0 to 2, row 3, row 4 and \<open>None\<close>.
\<close>

theorem sequential_reads_return_witness:
  "\<exists>st'. pq_reads pq_example_fs pq_example_new [3, 1, 4, 2] =
          Some (Inr [Some [10, 11, 12], Some [13], Some [14], None], st')"
proof -
  have ok: "pq_file_ok pq_example_file"
    by (simp add: pq_file_ok_def pq_example_file_def)
  have fs: "pq_example_fs ''data.parquet'' = Some pq_example_file"
    by (simp add: pq_example_fs_def)
  have init: "ParquetDataSet_init ''data.parquet'' (Some ''emb'') = Inr pq_example_new"
    by (simp add: ParquetDataSet_init_def pq_example_new_def BEGINNING_def)
  have cs: "\<forall>c\<in>set [3, 1, 4, 2 :: int]. 0 < c" by simp
  have rr: "requested_ranges (all_rows pq_example_file) 0 [3, 1, 4, 2] =
              [Some [10, 11, 12], Some [13], Some [14], None]"
    by (simp add: all_rows_def pq_example_file_def)
  from sequential_reads_return [where F = pq_example_file and fs = pq_example_fs
      and path = "''data.parquet''" and column = "''emb''" and ?st0.0 = pq_example_new
      and cs = "[3, 1, 4, 2]", OF ok fs init cs]
  show ?thesis unfolding rr .
qed

text \<open>
  C2. For batches \<open>B1\<close>, \<open>B2\<close>, \<open>B3\<close> of 500, 500 and 300 rows: on a new reader,
  \<open>seek(450)\<close> and \<open>read(500)\<close> request the rows from 450 up to 950 and return
  500 vectors, the rows from 450 on of \<open>B1\<close> followed by the first 450 rows of \<open>B2\<close>.
  Afterwards the iterator holds \<open>B3\<close> only (\<open>B1\<close> is not fetched again), \<open>B2\<close> is the held
  batch with window from 500 up to 1000, and the next \<open>read(50)\<close> returns the rows from 450
  on of \<open>B2\<close>, the rows from 950 up to 1000 of the file, without touching the iterator.
\<close>

theorem stitch_across_batches:
  assumes len: "length B1 = 500" "length B2 = 500" "length B3 = 300"
    and fs: "fs path = Some \<lparr>num_rows = 1300, batches = [B1, B2, B3]\<rparr>"
    and init: "ParquetDataSet_init path (Some column) = Inr st0"
  shows "\<exists>st1 st2 st3.
           pq_seek fs st0 450 = (Inr (), st1) \<and>
           pq_read fs st1 500 = Some (Inr (Some (drop 450 B1 @ take 450 B2)), st2) \<and>
           length (drop 450 B1 @ take 450 B2) = 500 \<and>
           batch_iterator st2 = Some [B3] \<and> prev_batch st2 = B2 \<and>
           file_batch_start st2 = 500 \<and> file_batch_end st2 = 1000 \<and> pq_current st2 = 950 \<and>
           pq_read fs st2 50 = Some (Inr (Some (drop 450 B2)), st3) \<and>
           batch_iterator st3 = Some [B3] \<and> prev_batch st3 = B2 \<and> pq_current st3 = 1000"
proof -
  let ?F = "\<lparr>num_rows = 1300, batches = [B1, B2, B3]\<rparr>"
  note st0 = ParquetDataSet_init_Inr [OF init]
  let ?st1 = "\<lparr>pq_dataset_path = path, pq_file = Some ?F, pq_column = column,
                pq_current = 450, batch_iterator = Some [B1, B2, B3], prev_batch = [],
                file_batch_start = 0, file_batch_end = 0\<rparr>"
  let ?sta = "\<lparr>pq_dataset_path = path, pq_file = Some ?F, pq_column = column,
                pq_current = 450, batch_iterator = Some [B2, B3], prev_batch = [],
                file_batch_start = 0, file_batch_end = 500\<rparr>"
  let ?stb = "\<lparr>pq_dataset_path = path, pq_file = Some ?F, pq_column = column,
                pq_current = 450, batch_iterator = Some [B3], prev_batch = B2,
                file_batch_start = 500, file_batch_end = 1000\<rparr>"
  let ?st2 = "\<lparr>pq_dataset_path = path, pq_file = Some ?F, pq_column = column,
                pq_current = 950, batch_iterator = Some [B3], prev_batch = B2,
                file_batch_start = 500, file_batch_end = 1000\<rparr>"
  let ?st3 = "\<lparr>pq_dataset_path = path, pq_file = Some ?F, pq_column = column,
                pq_current = 1000, batch_iterator = Some [B3], prev_batch = B2,
                file_batch_start = 500, file_batch_end = 1000\<rparr>"
  have ne: "B1 \<noteq> []" "B2 \<noteq> []" using len by auto
  have seek: "pq_seek fs st0 450 = (Inr (), ?st1)"
    by (simp add: pq_seek_def pq_size_def pq_load_def st0 fs BEGINNING_def)
  have s1: "py_slice_from B1 450 = drop 450 B1" "py_slice B2 0 450 = take 450 B2"
    "py_slice B2 450 500 = drop 450 B2"
    using len by (simp_all add: py_slice_from_def py_slice_def slice_index_def)
  have l1: "extract_loop ?st1 450 950 [] = extract_loop ?sta 450 950 (drop 450 B1)"
    by (subst extract_loop.simps) (simp add: get_batch_def ne len Let_def s1)
  have l2: "extract_loop ?sta 450 950 (drop 450 B1) =
              Some (Inr (drop 450 B1 @ take 450 B2), ?stb)"
    by (subst extract_loop.simps) (simp add: get_batch_def ne len Let_def s1)
  have l3: "extract_loop ?st2 950 1000 [] = Some (Inr (drop 450 B2), ?st2)"
    by (subst extract_loop.simps) (simp add: get_batch_def ne len Let_def s1)
  have r1: "pq_read fs ?st1 500 = Some (Inr (Some (drop 450 B1 @ take 450 B2)), ?st2)"
    by (simp add: pq_read_loaded [where F = ?F] extract_vectors_def l1 l2 s1)
  have r2: "pq_read fs ?st2 50 = Some (Inr (Some (drop 450 B2)), ?st3)"
    by (simp add: pq_read_loaded [where F = ?F] extract_vectors_def l3 s1)
  show ?thesis
    apply (rule exI [of _ ?st1], rule exI [of _ ?st2], rule exI [of _ ?st3])
    using seek r1 r2 len by simp
qed

text \<open>
  With rows that are their own indices the two reads return the indices from 450 up to 950
  and from 950 up to 1000.
\<close>

theorem stitch_across_batches_witness:
  "\<exists>st1 st2 st3.
     pq_seek [''data.parquet'' \<mapsto> pq_stitch_file] pq_example_new 450 = (Inr (), st1) \<and>
     pq_read [''data.parquet'' \<mapsto> pq_stitch_file] st1 500 = Some (Inr (Some [450..<950]), st2) \<and>
     batch_iterator st2 = Some [[1000..<1300]] \<and> prev_batch st2 = [500..<1000] \<and>
     pq_read [''data.parquet'' \<mapsto> pq_stitch_file] st2 50 = Some (Inr (Some [950..<1000]), st3)"
proof -
  have len: "length [0..<500] = 500" "length [500..<1000] = 500" "length [1000..<1300] = 300"
    by simp_all
  have fs: "[''data.parquet'' \<mapsto> pq_stitch_file] ''data.parquet'' =
            Some \<lparr>num_rows = 1300, batches = [[0..<500], [500..<1000], [1000..<1300]]\<rparr>"
    by (simp add: pq_stitch_file_def)
  have init: "ParquetDataSet_init ''data.parquet'' (Some ''emb'') = Inr pq_example_new"
    by (simp add: ParquetDataSet_init_def pq_example_new_def BEGINNING_def)
  have v: "drop 450 [0..<500] @ take 450 [500..<1000] = [450..<950]"
    "drop 450 [500..<1000] = [950..<1000]"
    by simp_all
  from stitch_across_batches [where fs = "[''data.parquet'' \<mapsto> pq_stitch_file]"
      and path = "''data.parquet''" and column = "''emb''" and ?st0.0 = pq_example_new
      and ?B1.0 = "[0..<500]" and ?B2.0 = "[500..<1000]" and ?B3.0 = "[1000..<1300]",
      OF len fs init]
  show ?thesis unfolding v by blast
qed

lemma drop_take_eq_take_drop:
  "a \<le> b \<Longrightarrow> drop a (take b xs) = take (b - a) (drop a xs)"
  by (simp add: drop_take)

lemma expected_read_eq:
  assumes "0 \<le> cur" and "0 \<le> c" and "cur < int (length rows)"
  shows "expected_read rows cur c =
         Some (drop (nat cur) (take (nat (min (cur + c) (int (length rows)))) rows))"
    and "expected_cursor rows cur c = min (cur + c) (int (length rows))"
proof -
  have a: "nat cur \<le> nat (min (cur + c) (int (length rows)))"
    "nat (min (cur + c) (int (length rows))) - nat cur = nat (min c (int (length rows) - cur))"
    using assms by (auto simp: min_def)
  show "expected_read rows cur c =
         Some (drop (nat cur) (take (nat (min (cur + c) (int (length rows)))) rows))"
    using assms(3) by (simp add: expected_read_def drop_take_eq_take_drop [OF a(1)] a(2))
  show "expected_cursor rows cur c = min (cur + c) (int (length rows))"
    using assms by (auto simp: expected_cursor_def min_def)
qed

lemma h5_load_ready:
  assumes "h5_ready fs st d"
  shows "h5_load fs st = (Inr (), st\<lparr>h5_data := Some d\<rparr>)"
  using assms by (auto simp: h5_ready_def h5_load_def split: option.splits)

lemma h5_read_loaded:
  assumes "h5_data st = Some d"
  shows "h5_read fs st c =
     (if h5_current st \<ge> int (length d) then (Inr None, st)
      else (Inr (Some (py_slice d (h5_current st) (min (h5_current st + c) (int (length d))))),
            st\<lparr>h5_current := min (h5_current st + c) (int (length d))\<rparr>))"
proof (cases "h5_current st + c > int (length d)")
  case True
  then have m: "min (h5_current st + c) (int (length d)) = int (length d)" by simp
  from True show ?thesis
    unfolding m by (simp add: h5_read_def h5_load_loaded [OF assms] h5_size_loaded [OF assms] assms)
next
  case False
  then have m: "min (h5_current st + c) (int (length d)) = h5_current st + c" by simp
  from False show ?thesis
    unfolding m by (simp add: h5_read_def h5_load_loaded [OF assms] h5_size_loaded [OF assms] assms)
qed

lemma h5_read_after_load:
  assumes "h5_load fs st = (Inr (), st1)"
  shows "h5_read fs st c = h5_read fs st1 c"
proof -
  from assms obtain d where d: "h5_data st1 = Some d"
    by (auto simp: h5_load_def split: if_splits option.splits)
  show ?thesis
    unfolding h5_read_def [of fs st] assms
    by (simp add: h5_read_def [of fs st1] h5_load_loaded [OF d])
qed

lemma h5_read_ready:
  assumes r: "h5_ready fs st d" and c: "0 \<le> c"
  shows "h5_read fs st c =
           (Inr (expected_read d (h5_current st) c),
            st\<lparr>h5_data := Some d, h5_current := expected_cursor d (h5_current st) c\<rparr>)"
proof -
  let ?st1 = "st\<lparr>h5_data := Some d\<rparr>"
  note l = h5_load_ready [OF r]
  from r have cur: "0 \<le> h5_current st" by (simp add: h5_ready_def)
  have d: "h5_data ?st1 = Some d" by simp
  show ?thesis
  proof (cases "h5_current st \<ge> int (length d)")
    case True
    then show ?thesis
      by (simp add: h5_read_after_load [OF l] h5_read_loaded [OF d] expected_read_def
          expected_cursor_def)
  next
    case False
    then have lt: "h5_current st < int (length d)" by simp
    let ?e = "min (h5_current st + c) (int (length d))"
    have b: "0 \<le> ?e" "?e \<le> int (length d)" "h5_current st \<le> int (length d)"
      using cur c lt by simp_all
    show ?thesis
      using False
      by (simp add: h5_read_after_load [OF l] h5_read_loaded [OF d] expected_read_eq [OF cur c lt]
          py_slice_inside [OF cur b(3) b(1) b(2)])
  qed
qed

lemma reader_step:
  assumes "w = 1 \<and> r = u8_reader \<or> w = 4 \<and> r = f_reader"
    and "pos f + w \<le> length (contents f)"
  shows "r f = (Inr (ba_decode w (take w (drop (pos f) (contents f)))), f\<lparr>pos := pos f + w\<rparr>)"
proof -
  have len: "length (take w (drop (pos f) (contents f))) = w" using assms(2) by simp
  from assms(1) show ?thesis
  proof
    assume a: "w = 1 \<and> r = u8_reader"
    with len show ?thesis
      by (simp add: u8_reader_def file_read_def Let_def BYTES_PER_U8INT_def ba_decode_def)
  next
    assume a: "w = 4 \<and> r = f_reader"
    with len show ?thesis
      by (simp add: f_reader_def file_read_def Let_def BYTES_PER_FLOAT_def ba_decode_def
          struct_unpack_f_def)
  qed
qed

lemma map_upt_Suc_shift: "map f [0..<Suc n] = f 0 # map (\<lambda>j. f (Suc j)) [0..<n]"
  by (simp add: map_upt_Suc del: upt_Suc)

lemma read_values_ok:
  assumes "w = 1 \<and> r = u8_reader \<or> w = 4 \<and> r = f_reader"
    and "pos f + n * w \<le> length (contents f)"
  shows "read_values r n f =
           (Inr (map (\<lambda>j. ba_decode w (take w (drop (pos f + j * w) (contents f)))) [0..<n]),
            f\<lparr>pos := pos f + n * w\<rparr>)"
  using assms(2)
proof (induction n arbitrary: f)
  case 0
  then show ?case by simp
next
  case (Suc n)
  let ?f1 = "f\<lparr>pos := pos f + w\<rparr>"
  have s: "pos f + w \<le> length (contents f)" using Suc.prems by simp
  have p: "pos ?f1 + n * w \<le> length (contents ?f1)" using Suc.prems by simp
  have sh: "\<And>j. pos f + w + j * w = pos f + Suc j * w" by simp
  show ?case
    unfolding read_values.simps reader_step [OF assms(1) s] bind_res_Inr Suc.IH [OF p]
      map_upt_Suc_shift
    by (simp add: add.commute add.left_commute)
qed

lemma read_vector_ok:
  assumes "ba_file st = Some f" and "reader st = Some r" and "dimension st = int dm"
    and "w = 1 \<and> r = u8_reader \<or> w = 4 \<and> r = f_reader"
    and "pos f + dm * w \<le> length (contents f)"
  shows "read_vector st =
           (Inr (map (\<lambda>j. ba_decode w (take w (drop (pos f + j * w) (contents f)))) [0..<dm]),
            st\<lparr>ba_file := Some (f\<lparr>pos := pos f + dm * w\<rparr>)\<rparr>)"
  by (simp add: read_vector_def assms(1,2,3) read_values_ok [OF assms(4,5)])

lemma read_vectors_ok:
  assumes "w = 1 \<and> r = u8_reader \<or> w = 4 \<and> r = f_reader"
    and "ba_file st = Some f" and "reader st = Some r" and "dimension st = int dm"
    and "pos f + n * dm * w \<le> length (contents f)"
  shows "read_vectors n st =
           (Inr (map (\<lambda>i. map (\<lambda>j. ba_decode w
                     (take w (drop (pos f + (i * dm + j) * w) (contents f)))) [0..<dm]) [0..<n]),
            st\<lparr>ba_file := Some (f\<lparr>pos := pos f + n * dm * w\<rparr>)\<rparr>)"
  using assms(2-)
proof (induction n arbitrary: st f)
  case 0
  then show ?case by simp
next
  case (Suc n)
  let ?f1 = "f\<lparr>pos := pos f + dm * w\<rparr>"
  let ?st1 = "st\<lparr>ba_file := Some ?f1\<rparr>"
  have s: "pos f + dm * w \<le> length (contents f)"
    using Suc.prems(4) by (simp add: add_mult_distrib)
  have f1: "ba_file ?st1 = Some ?f1" "reader ?st1 = Some r" "dimension ?st1 = int dm"
    using Suc.prems by simp_all
  have p: "pos ?f1 + n * dm * w \<le> length (contents ?f1)"
    using Suc.prems(4) by (simp add: algebra_simps)
  have sh: "\<And>i j. pos f + dm * w + (i * dm + j) * w = pos f + (Suc i * dm + j) * w"
    by (simp add: algebra_simps)
  have st_eq: "?st1\<lparr>ba_file := Some (?f1\<lparr>pos := pos ?f1 + n * dm * w\<rparr>)\<rparr> =
               st\<lparr>ba_file := Some (f\<lparr>pos := pos f + Suc n * dm * w\<rparr>)\<rparr>"
    by (simp add: algebra_simps)
  show ?case
    unfolding read_vectors.simps
      read_vector_ok [OF Suc.prems(1) Suc.prems(2) Suc.prems(3) assms(1) s]
      bind_res_Inr Suc.IH [OF f1 p] map_upt_Suc_shift [of _ n] st_eq
    by (simp add: sh)
qed

lemma ba_rows_slice:
  assumes "cur + n \<le> ba_points bytes"
  shows "take n (drop cur (ba_rows path bytes)) =
         map (\<lambda>i. ba_row bytes (ba_dim bytes) (ba_width path) (cur + i)) [0..<n]"
proof -
  have "take n (drop cur (ba_rows path bytes)) =
        map (ba_row bytes (ba_dim bytes) (ba_width path)) [cur..<cur + n]"
    using assms by (simp add: ba_rows_def take_map drop_map)
  also have "[cur..<cur + n] = map (\<lambda>i. cur + i) [0..<n]"
    using map_add_upt [of cur n] by (simp add: add.commute)
  finally show ?thesis by (simp add: comp_def)
qed

lemma length_ba_rows [simp]: "length (ba_rows path bytes) = ba_points bytes"
  by (simp add: ba_rows_def)

lemma ba_file_ok_facts:
  assumes "ba_file_ok path bytes"
  shows "\<not> int (length bytes) < 8"
    and "\<not> (last_dot_part path \<noteq> ''u8bin'' \<and> last_dot_part path \<noteq> ''fbin'')"
    and "int_from_bytes_little (take 4 bytes) = int (ba_points bytes)"
    and "int_from_bytes_little (take 4 (drop 4 bytes)) = int (ba_dim bytes)"
    and "(if last_dot_part path = ''u8bin'' then 1 else 4) = int (ba_width path)"
    and "int (length bytes) - 8 = int (ba_points bytes) * int (ba_dim bytes) * int (ba_width path)"
    and "ba_width path = 1 \<and> ba_reader_of path = u8_reader \<or>
         ba_width path = 4 \<and> ba_reader_of path = f_reader"
proof -
  from assms have l: "length bytes = 8 + ba_points bytes * ba_dim bytes * ba_width path"
    and e: "last_dot_part path = ''u8bin'' \<or> last_dot_part path = ''fbin''"
    and m: "8 \<le> length bytes"
    unfolding ba_file_ok_def by blast+
  have "int (length bytes) = 8 + int (ba_points bytes * ba_dim bytes * ba_width path)"
    by (subst l) simp
  then show "int (length bytes) - 8 = int (ba_points bytes) * int (ba_dim bytes) * int (ba_width path)"
    by simp
  from m show "\<not> int (length bytes) < 8" by simp
  from e show "\<not> (last_dot_part path \<noteq> ''u8bin'' \<and> last_dot_part path \<noteq> ''fbin'')" by blast
  show "int_from_bytes_little (take 4 bytes) = int (ba_points bytes)"
    unfolding ba_points_def using int_from_bytes_little_nonneg [of "take 4 bytes"] by simp
  show "int_from_bytes_little (take 4 (drop 4 bytes)) = int (ba_dim bytes)"
    unfolding ba_dim_def using int_from_bytes_little_nonneg [of "take 4 (drop 4 bytes)"] by simp
  show "(if last_dot_part path = ''u8bin'' then 1 else 4) = int (ba_width path)"
    unfolding ba_width_def by (cases "last_dot_part path = ''u8bin''") simp_all
  show "ba_width path = 1 \<and> ba_reader_of path = u8_reader \<or>
         ba_width path = 4 \<and> ba_reader_of path = f_reader"
    unfolding ba_width_def ba_reader_of_def by (cases "last_dot_part path = ''u8bin''") simp_all
qed

lemma ba_load_ready:
  assumes "ba_ready fs st bytes"
  shows "\<exists>st1 f. ba_load fs st = (Inr (), st1) \<and> ba_ready fs st1 bytes \<and> ba_file st1 = Some f \<and>
           ba_current st1 = ba_current st \<and> ba_dataset_path st1 = ba_dataset_path st"
proof (cases "ba_file st")
  case None
  from assms have ok: "ba_file_ok (ba_dataset_path st) bytes"
    and p: "fs (ba_dataset_path st) = Some bytes" and c: "ba_current st = 0"
    by (simp_all add: ba_ready_def None)
  note k = ba_file_ok_facts [OF ok]
  let ?st1 = "st\<lparr>ba_file := Some \<lparr>contents = bytes, pos = 8\<rparr>,
                  num_points := int (ba_points bytes), dimension := int (ba_dim bytes),
                  bytes_per_num := int (ba_width (ba_dataset_path st)),
                  reader := Some (ba_reader_of (ba_dataset_path st))\<rparr>"
  have "init_internal_params fs st = (Inr (), ?st1)"
    unfolding init_internal_params_eq [where fs = fs and st = st and bytes = bytes, OF p] Let_def
      k(3,4,5)
    using k(1,2,6) by (simp add: ba_reader_of_def)
  then have l: "ba_load fs st = (Inr (), ?st1)" using None by (simp add: ba_load_def)
  have "ba_ready fs ?st1 bytes" using ok c by (simp add: ba_ready_def)
  with l show ?thesis by simp
next
  case (Some f)
  with assms show ?thesis by (simp add: ba_load_open)
qed

lemma ba_read_after_load:
  assumes "ba_load fs st = (Inr (), st1)" and "ba_file st1 = Some f"
  shows "ba_read fs st c = ba_read fs st1 c"
  unfolding ba_read_def [of fs st] assms(1)
  by (simp add: ba_read_def [of fs st1] ba_load_open [OF assms(2)])

lemma ba_read_loaded:
  assumes "ba_file st = Some f"
  shows "ba_read fs st c =
     (if ba_current st \<ge> num_points st then (Inr None, st)
      else
        bind_res (read_vectors (nat (min (ba_current st + c) (num_points st) - ba_current st)) st)
          (\<lambda>vectors st5.
             (Inr (Some vectors), st5\<lparr>ba_current := min (ba_current st + c) (num_points st)\<rparr>)))"
proof (cases "ba_current st + c > num_points st")
  case True
  then have m: "min (ba_current st + c) (num_points st) = num_points st" by simp
  from True show ?thesis
    unfolding m by (simp add: ba_read_def ba_load_open [OF assms] ba_size_open [OF assms])
next
  case False
  then have m: "min (ba_current st + c) (num_points st) = ba_current st + c" by simp
  from False show ?thesis
    unfolding m by (simp add: ba_read_def ba_load_open [OF assms] ba_size_open [OF assms])
qed

lemma ba_read_ready_loaded:
  assumes r: "ba_ready fs st bytes" and f: "ba_file st = Some f" and c: "0 \<le> c"
  shows "fst (ba_read fs st c) =
           Inr (expected_read (ba_rows (ba_dataset_path st) bytes) (ba_current st) c) \<and>
         ba_current (snd (ba_read fs st c)) =
           expected_cursor (ba_rows (ba_dataset_path st) bytes) (ba_current st) c \<and>
         ba_ready fs (snd (ba_read fs st c)) bytes"
proof -
  let ?path = "ba_dataset_path st"
  let ?np = "ba_points bytes" and ?dm = "ba_dim bytes" and ?w = "ba_width ?path"
  from r f have ok: "ba_file_ok ?path bytes" and cf: "contents f = bytes"
    and np: "num_points st = int ?np" and dm: "dimension st = int ?dm"
    and bw: "bytes_per_num st = int ?w" and rd: "reader st = Some (ba_reader_of ?path)"
    and cur: "0 \<le> ba_current st"
    and ps: "int (pos f) = 8 + dimension st * bytes_per_num st * ba_current st"
    by (simp_all add: ba_ready_def)
  note k = ba_file_ok_facts [OF ok]
  show ?thesis
  proof (cases "ba_current st \<ge> num_points st")
    case True
    then show ?thesis
      using r np by (simp add: ba_read_loaded [OF f] expected_read_def expected_cursor_def)
  next
    case False
    define k0 where "k0 = nat (ba_current st)"
    define n where "n = nat (min (ba_current st + c) (num_points st) - ba_current st)"
    have k0: "ba_current st = int k0" using cur by (simp add: k0_def)
    have n: "min (ba_current st + c) (num_points st) = int (k0 + n)"
      using False c cur by (simp add: n_def k0_def min_def)
    have kn: "k0 + n \<le> ?np" using n np by linarith
    have lt: "ba_current st < int (length (ba_rows ?path bytes))" using False np by simp
    have pos: "pos f = 8 + k0 * ?dm * ?w"
    proof -
      have "int (pos f) = int (8 + k0 * ?dm * ?w)"
        unfolding ps dm bw k0 by (simp add: algebra_simps)
      then show ?thesis by linarith
    qed
    have len: "length bytes = 8 + ?np * ?dm * ?w" using ok by (simp add: ba_file_ok_def)
    have "(k0 + n) * (?dm * ?w) \<le> ?np * (?dm * ?w)" using kn by (rule mult_le_mono1)
    then have fit: "pos f + n * ?dm * ?w \<le> length (contents f)"
      unfolding pos cf len by (simp add: algebra_simps)
    have sh: "\<And>i j. 8 + k0 * ?dm * ?w + (i * ?dm + j) * ?w = 8 + ((k0 + i) * ?dm + j) * ?w"
      by (simp add: algebra_simps)
    have rv: "read_vectors n st =
        (Inr (map (\<lambda>i. ba_row bytes ?dm ?w (k0 + i)) [0..<n]),
         st\<lparr>ba_file := Some (f\<lparr>pos := pos f + n * ?dm * ?w\<rparr>)\<rparr>)"
      unfolding read_vectors_ok [OF k(7) f rd dm fit] cf pos ba_row_def sh ..
    have er: "expected_read (ba_rows ?path bytes) (ba_current st) c =
              Some (map (\<lambda>i. ba_row bytes ?dm ?w (k0 + i)) [0..<n])"
    proof -
      have a: "nat (min c (int (length (ba_rows ?path bytes)) - ba_current st)) = n"
        using np by (simp add: n_def min_def)
      have b: "\<not> int (length (ba_rows ?path bytes)) \<le> ba_current st" using lt by simp
      show ?thesis
        unfolding expected_read_def a k0_def [symmetric] ba_rows_slice [OF kn] using b by simp
    qed
    have ec: "expected_cursor (ba_rows ?path bytes) (ba_current st) c = int (k0 + n)"
      using expected_read_eq(2) [OF cur c lt] n np by simp
    let ?st' = "st\<lparr>ba_file := Some (f\<lparr>pos := pos f + n * ?dm * ?w\<rparr>), ba_current := int (k0 + n)\<rparr>"
    have res: "ba_read fs st c = (Inr (Some (map (\<lambda>i. ba_row bytes ?dm ?w (k0 + i)) [0..<n])), ?st')"
      using False unfolding ba_read_loaded [OF f] unfolding n_def [symmetric] unfolding n
      by (simp add: rv)
    have "int (pos f + n * ?dm * ?w) = 8 + int ?dm * int ?w * int (k0 + n)"
      unfolding pos by (simp add: algebra_simps)
    then have "ba_ready fs ?st' bytes"
      using ok cf np dm bw rd by (simp add: ba_ready_def)
    then show ?thesis by (simp add: res er ec)
  qed
qed

lemma ba_read_ready:
  assumes r: "ba_ready fs st bytes" and c: "0 \<le> c"
  shows "fst (ba_read fs st c) =
           Inr (expected_read (ba_rows (ba_dataset_path st) bytes) (ba_current st) c) \<and>
         ba_current (snd (ba_read fs st c)) =
           expected_cursor (ba_rows (ba_dataset_path st) bytes) (ba_current st) c \<and>
         ba_ready fs (snd (ba_read fs st c)) bytes"
proof -
  from ba_load_ready [OF r] obtain st1 f where l: "ba_load fs st = (Inr (), st1)"
    and r1: "ba_ready fs st1 bytes" and f: "ba_file st1 = Some f"
    and e: "ba_current st1 = ba_current st" "ba_dataset_path st1 = ba_dataset_path st"
    by blast
  from ba_read_ready_loaded [OF r1 f c] show ?thesis
    unfolding ba_read_after_load [OF l f] e .
qed

lemma expected_read_one:
  assumes "0 \<le> off" and "off < int (length rows)"
  shows "expected_read rows off 1 = Some [rows ! nat off]"
    and "after_discarding off (Inr (expected_read rows 0 (off + 1))) = Inr (Some [rows ! nat off])"
proof -
  have k: "nat off < length rows" using assms by linarith
  have t: "take 1 (drop (nat off) rows) = [rows ! nat off]"
    using Cons_nth_drop_Suc [OF k, symmetric] by simp
  have m: "nat (min 1 (int (length rows) - off)) = 1" using assms by (simp add: min_def)
  show "expected_read rows off 1 = Some [rows ! nat off]"
    unfolding expected_read_def m using assms(2) t by simp
  have m2: "nat (min (off + 1) (int (length rows) - 0)) = Suc (nat off)"
    using assms by (simp add: min_def)
  have d: "drop (nat off) (take (Suc (nat off)) rows) = [rows ! nat off]"
    using k by (simp add: take_Suc_conv_app_nth)
  have z: "\<not> int (length rows) \<le> 0" using assms by linarith
  show "after_discarding off (Inr (expected_read rows 0 (off + 1))) = Inr (Some [rows ! nat off])"
    unfolding expected_read_def m2 using z d by (simp add: after_discarding_def)
qed

lemma h5_seek_ready:
  assumes "h5_ready fs st d" and "0 \<le> off" and "off < int (length d)"
  shows "h5_seek fs st off = (Inr (), st\<lparr>h5_data := Some d, h5_current := off\<rparr>)"
    and "h5_ready fs (st\<lparr>h5_data := Some d, h5_current := off\<rparr>) d"
  using assms
  by (simp_all add: h5_seek_def h5_size_def h5_load_ready [OF assms(1)] BEGINNING_def h5_ready_def)

lemma pq_ready_facts:
  assumes "pq_ready fs st F"
  shows "0 \<le> pq_current st" and "num_rows F = int (length (all_rows F))"
proof -
  from assms have ok: "pq_file_ok F" by (simp add: pq_ready_def)
  then show "num_rows F = int (length (all_rows F))"
    by (simp add: pq_file_ok_def all_rows_def total_rows_def)
  show "0 \<le> pq_current st"
  proof (cases "pq_file st")
    case None
    with assms show ?thesis by (simp add: pq_ready_def)
  next
    case (Some F')
    with assms have "pq_window_ok F st" by (simp add: pq_ready_def)
    from pq_window_okD [OF this] obtain pre where
      w: "if prev_batch st = [] then total_rows pre \<le> pq_current st
          else pre \<noteq> [] \<and> prev_batch st = last pre \<and>
               file_batch_start st = total_rows (butlast pre) \<and>
               file_batch_start st \<le> pq_current st \<and> pq_current st \<le> file_batch_end st"
      by blast
    have a: "0 \<le> total_rows pre" "0 \<le> total_rows (butlast pre)" by simp_all
    show ?thesis
    proof (cases "prev_batch st = []")
      case True
      with w have "total_rows pre \<le> pq_current st" by simp
      with a(1) show ?thesis by linarith
    next
      case False
      with w have "total_rows (butlast pre) \<le> pq_current st" by simp
      with a(2) show ?thesis by linarith
    qed
  qed
qed

lemma pq_read_expected:
  assumes r: "pq_ready fs st F" and c: "0 \<le> c"
  shows "\<exists>st'. pq_read fs st c = Some (Inr (expected_read (all_rows F) (pq_current st) c), st') \<and>
           pq_current st' = expected_cursor (all_rows F) (pq_current st) c \<and>
           pq_ready fs st' F"
proof -
  note k = pq_ready_facts [OF r]
  show ?thesis
  proof (cases "pq_current st \<ge> num_rows F")
    case True
    with pq_read_ready [OF r c] show ?thesis
      by (simp add: expected_read_def expected_cursor_def k(2))
  next
    case False
    then have lt: "pq_current st < int (length (all_rows F))" using k(2) by simp
    from pq_read_ready [OF r c] False show ?thesis
      unfolding expected_read_eq [OF k(1) c lt] k(2) by simp
  qed
qed

lemma pq_seek_ready:
  assumes r: "pq_ready fs (st\<lparr>pq_current := off\<rparr>) F" and o: "0 \<le> off" "off < num_rows F"
  shows "\<exists>st1. pq_seek fs st off = (Inr (), st1) \<and> pq_ready fs st1 F \<and> pq_current st1 = off"
proof -
  from pq_load_ready [OF r] obtain st1 where l: "pq_load fs (st\<lparr>pq_current := off\<rparr>) = (Inr (), st1)"
    and w: "pq_window_ok F st1" and c: "pq_current st1 = off" by auto
  from r have ok: "pq_file_ok F" by (simp add: pq_ready_def)
  from pq_window_okD [OF w] have f: "pq_file st1 = Some F" by blast
  have l2: "pq_load fs st = (Inr (), st1\<lparr>pq_current := pq_current st\<rparr>)"
    using l by (auto simp: pq_load_def split: if_splits option.splits)
  have e: "st1\<lparr>pq_current := off\<rparr> = st1" using c by simp
  have "pq_seek fs st off = (Inr (), st1)"
    using o f by (simp add: pq_seek_def pq_size_def l2 BEGINNING_def e)
  with pq_ready_loaded [OF ok w] c show ?thesis by blast
qed

lemma ba_seek_ready:
  assumes r: "ba_ready fs st bytes" and o: "0 \<le> off" "off < int (ba_points bytes)"
  shows "fst (ba_seek fs st off) = Inr () \<and> ba_ready fs (snd (ba_seek fs st off)) bytes \<and>
         ba_current (snd (ba_seek fs st off)) = off \<and>
         ba_dataset_path (snd (ba_seek fs st off)) = ba_dataset_path st"
proof -
  from ba_load_ready [OF r] obtain st1 f where l: "ba_load fs st = (Inr (), st1)"
    and r1: "ba_ready fs st1 bytes" and f: "ba_file st1 = Some f"
    and e: "ba_current st1 = ba_current st" "ba_dataset_path st1 = ba_dataset_path st"
    by blast
  from r1 f have np: "num_points st1 = int (ba_points bytes)"
    and dm: "dimension st1 = int (ba_dim bytes)"
    and bw: "bytes_per_num st1 = int (ba_width (ba_dataset_path st1))"
    by (simp_all add: ba_ready_def)
  have nn: "\<not> 8 + dimension st1 * bytes_per_num st1 * off < 0"
  proof -
    have "0 \<le> dimension st1 * bytes_per_num st1 * off" using o(1) by (simp add: dm bw)
    then show ?thesis by simp
  qed
  let ?st2 = "st1\<lparr>ba_file := Some (f\<lparr>pos := nat (8 + dimension st1 * bytes_per_num st1 * off)\<rparr>),
                  ba_current := off\<rparr>"
  have s: "ba_seek fs st off = (Inr (), ?st2)"
    using o nn by (simp add: ba_seek_def l ba_size_open [OF f] f np BEGINNING_def file_seek_def
        DATA_SET_HEADER_LENGTH_def)
  have "ba_ready fs ?st2 bytes"
    using r1 f o(1) nn by (simp add: ba_ready_def)
  with s e show ?thesis by simp
qed

lemma py_slice_same: "py_slice xs i i = []"
  by (simp add: py_slice_def)

lemma h5_read_zero:
  assumes "h5_size fs st = (Inr n, st1)" and "h5_current st < n"
  shows "h5_read fs st 0 = (Inr (Some []), st1)" and "h5_current st1 = h5_current st"
proof -
  from assms(1) obtain d where l: "h5_load fs st = (Inr (), st1)" and d: "h5_data st1 = Some d"
    and n: "n = int (length d)"
    by (auto simp: h5_size_def bind_res_def split: prod.splits sum.splits option.splits)
  show c: "h5_current st1 = h5_current st" by (rule h5_size_current [OF assms(1)])
  have e: "st1\<lparr>h5_current := h5_current st\<rparr> = st1" using c by simp
  show "h5_read fs st 0 = (Inr (Some []), st1)"
    using assms(2) c
    by (simp add: h5_read_after_load [OF l] h5_read_loaded [OF d] n py_slice_same e)
qed

lemma ba_read_zero:
  assumes "ba_size fs st = (Inr n, st1)" and "ba_current st < n"
  shows "ba_read fs st 0 = (Inr (Some []), st1)" and "ba_current st1 = ba_current st"
proof -
  from assms(1) have l: "ba_load fs st = (Inr (), st1)" and n: "n = num_points st1"
    by (auto simp: ba_size_def bind_res_def split: prod.splits sum.splits)
  from ba_load_file [of fs st] l obtain f where f: "ba_file st1 = Some f" by auto
  show c: "ba_current st1 = ba_current st" using ba_load_current [of fs st] l by simp
  have e: "st1\<lparr>ba_current := ba_current st\<rparr> = st1" using c by simp
  show "ba_read fs st 0 = (Inr (Some []), st1)"
    using assms(2) c n
    by (simp add: ba_read_after_load [OF l f] ba_read_loaded [OF f] e)
qed

lemma pq_example_read3:
  "pq_read pq_example_fs pq_example_new 3 = Some (Inr (Some [10, 11, 12]), pq_example_held)"
proof -
  let ?st1 = "\<lparr>pq_dataset_path = ''data.parquet'', pq_file = Some pq_example_file,
                pq_column = ''emb'', pq_current = 0,
                batch_iterator = Some [[10, 11], [12, 13, 14]], prev_batch = [],
                file_batch_start = 0, file_batch_end = 0\<rparr>"
  let ?st2 = "\<lparr>pq_dataset_path = ''data.parquet'', pq_file = Some pq_example_file,
                pq_column = ''emb'', pq_current = 0,
                batch_iterator = Some [[12, 13, 14]], prev_batch = [],
                file_batch_start = 0, file_batch_end = 2\<rparr>"
  let ?st3 = "\<lparr>pq_dataset_path = ''data.parquet'', pq_file = Some pq_example_file,
                pq_column = ''emb'', pq_current = 0,
                batch_iterator = Some [], prev_batch = [12, 13, 14],
                file_batch_start = 2, file_batch_end = 5\<rparr>"
  have l: "pq_load pq_example_fs pq_example_new = (Inr (), ?st1)"
    by (simp add: pq_load_def pq_example_fs_def pq_example_new_def pq_example_file_def)
  have f: "pq_file ?st1 = Some pq_example_file" by simp
  have e1: "extract_loop ?st1 0 3 [] = extract_loop ?st2 0 3 [10, 11]"
    by (subst extract_loop.simps)
      (simp add: get_batch_def Let_def py_slice_from_def slice_index_def)
  have e2: "extract_loop ?st2 0 3 [10, 11] = Some (Inr [10, 11, 12], ?st3)"
    by (subst extract_loop.simps)
      (simp add: get_batch_def Let_def py_slice_def slice_index_def)
  have n: "num_rows pq_example_file = 5" by (simp add: pq_example_file_def)
  show ?thesis
    unfolding pq_read_after_load [OF l] pq_read_loaded [OF f] n
    by (simp add: extract_vectors_def e1 e2 pq_example_held_def)
qed

lemma pq_example_held_read:
  assumes "0 \<le> cur" and "cur < 2" and "cur + c < 5" and "0 \<le> c"
  shows "pq_read pq_example_fs (pq_example_held\<lparr>pq_current := cur\<rparr>) c =
           Some (Inr (Some (py_slice [12, 13, 14] 0 (cur + c - 2))),
                 pq_example_held\<lparr>pq_current := cur + c\<rparr>)"
proof -
  let ?st = "pq_example_held\<lparr>pq_current := cur\<rparr>"
  have f: "pq_file ?st = Some pq_example_file" by (simp add: pq_example_held_def)
  have n: "num_rows pq_example_file = 5" by (simp add: pq_example_file_def)
  have m: "min (pq_current ?st + c) 5 = cur + c" using assms by simp
  have c: "pq_current ?st = cur" by simp
  have e: "extract_loop ?st cur (cur + c) [] =
             Some (Inr (py_slice [12, 13, 14] 0 (cur + c - 2)), ?st)"
    apply (subst extract_loop.simps)
    using assms by (simp add: get_batch_def Let_def pq_example_held_def)
  show ?thesis
    unfolding pq_read_loaded [OF f] n m unfolding c
    using assms by (simp add: extract_vectors_def e)
qed

lemma pq_example_held_seek:
  assumes "0 \<le> k" and "k < 5"
  shows "pq_seek pq_example_fs pq_example_held k = (Inr (), pq_example_held\<lparr>pq_current := k\<rparr>)"
proof -
  have f: "pq_file pq_example_held = Some pq_example_file" by (simp add: pq_example_held_def)
  have n: "num_rows pq_example_file = 5" by (simp add: pq_example_file_def)
  show ?thesis using assms by (simp add: pq_seek_def pq_size_loaded [OF f] n BEGINNING_def)
qed

lemma pq_example_ready: "pq_ready pq_example_fs pq_example_new pq_example_file"
  by (simp add: pq_ready_def pq_file_ok_def pq_example_fs_def pq_example_new_def
      pq_example_file_def)

lemma pq_example_rows: "all_rows pq_example_file = [10, 11, 12, 13, 14]"
  by (simp add: all_rows_def pq_example_file_def)

text \<open>
  C4 as stated fails for the columnar reader: after \<open>read(3)\<close> on the file with batches
  of 2 and 3 rows and \<open>seek(0)\<close>, the cursor 0 is before the window of the held batch,
  and \<open>read(1)\<close> returns two vectors, rows 2 and 3, where \<open>min(1, 5 - 0) = 1\<close>.
\<close>

theorem read_count_counterexample:
  "pq_read pq_example_fs pq_example_new 3 = Some (Inr (Some [10, 11, 12]), pq_example_held) \<and>
   pq_seek pq_example_fs pq_example_held 0 = (Inr (), pq_example_held\<lparr>pq_current := 0\<rparr>) \<and>
   pq_read pq_example_fs (pq_example_held\<lparr>pq_current := 0\<rparr>) 1 =
     Some (Inr (Some [12, 13]), pq_example_held\<lparr>pq_current := 1\<rparr>) \<and>
   int (length [12, 13 :: nat]) \<noteq> min 1 (num_rows pq_example_file - 0)"
proof -
  have "pq_read pq_example_fs (pq_example_held\<lparr>pq_current := 0\<rparr>) 1 =
          Some (Inr (Some [12, 13]), pq_example_held\<lparr>pq_current := 1\<rparr>)"
    using pq_example_held_read [of 0 1] by (simp add: py_slice_def slice_index_def)
  then show ?thesis
    using pq_example_read3 pq_example_held_seek [of 0] by (simp add: pq_example_file_def)
qed

text \<open>
  C10 as stated fails for the columnar reader: after \<open>read(3)\<close> and \<open>seek(1)\<close>, with the
  cursor 1 below the size 5, \<open>read(0)\<close> returns two vectors, not an empty batch.
\<close>

theorem read_zero_counterexample:
  "pq_read pq_example_fs pq_example_new 3 = Some (Inr (Some [10, 11, 12]), pq_example_held) \<and>
   pq_seek pq_example_fs pq_example_held 1 = (Inr (), pq_example_held\<lparr>pq_current := 1\<rparr>) \<and>
   pq_current (pq_example_held\<lparr>pq_current := 1\<rparr>) < num_rows pq_example_file \<and>
   pq_read pq_example_fs (pq_example_held\<lparr>pq_current := 1\<rparr>) 0 =
     Some (Inr (Some [12, 13]), pq_example_held\<lparr>pq_current := 1\<rparr>)"
proof -
  have "pq_read pq_example_fs (pq_example_held\<lparr>pq_current := 1\<rparr>) 0 =
          Some (Inr (Some [12, 13]), pq_example_held\<lparr>pq_current := 1\<rparr>)"
    using pq_example_held_read [of 1 0] by (simp add: py_slice_def slice_index_def)
  then show ?thesis
    using pq_example_read3 pq_example_held_seek [of 1] by (simp add: pq_example_file_def)
qed

text \<open>
  C3 as stated fails for the columnar reader: after \<open>read(3)\<close>, \<open>seek(1)\<close> moves
  backward before the held window, and \<open>read(1)\<close> returns no vector, where reading from the
  beginning and discarding one vector gives row 1.
\<close>

theorem seek_backward_counterexample:
  "pq_read pq_example_fs pq_example_new 3 = Some (Inr (Some [10, 11, 12]), pq_example_held) \<and>
   pq_seek pq_example_fs pq_example_held 1 = (Inr (), pq_example_held\<lparr>pq_current := 1\<rparr>) \<and>
   pq_read pq_example_fs (pq_example_held\<lparr>pq_current := 1\<rparr>) 1 =
     Some (Inr (Some []), pq_example_held\<lparr>pq_current := 2\<rparr>) \<and>
   map_option (after_discarding 1 \<circ> fst) (pq_read pq_example_fs pq_example_new 2) =
     Some (Inr (Some [11]))"
proof -
  have a: "pq_read pq_example_fs (pq_example_held\<lparr>pq_current := 1\<rparr>) 1 =
          Some (Inr (Some []), pq_example_held\<lparr>pq_current := 2\<rparr>)"
    using pq_example_held_read [of 1 1] by (simp add: py_slice_def slice_index_def)
  from pq_read_expected [OF pq_example_ready, of 2]
  obtain st' where "pq_read pq_example_fs pq_example_new 2 =
      Some (Inr (expected_read (all_rows pq_example_file) (pq_current pq_example_new) 2), st')"
    by auto
  then have b: "map_option (after_discarding 1 \<circ> fst) (pq_read pq_example_fs pq_example_new 2) =
     Some (Inr (Some [11]))"
    by (simp add: pq_example_rows pq_example_new_def expected_read_def after_discarding_def)
  show ?thesis
    using a b pq_example_read3 pq_example_held_seek [of 1] by simp
qed

text \<open>
  C4, amended. For a positive chunk size, \<open>read\<close> returns \<open>None\<close> without raising when the
  cursor is at or past the size, and otherwise returns the \<open>min(chunk, size - cursor)\<close>
  rows from the cursor on, in order, and advances the cursor by their number: for the
  hierarchical reader (cursor not negative), for the flat reader (stream at the row of
  the cursor), and for the columnar reader provided its cursor lies in the window of the
  batch it holds, or it holds none and the cursor is not before the end of its window.
  The columnar reader is then again in such a state.
\<close>

theorem read_chunk:
  "(h5_ready fsh sth d \<and> 0 < ch \<longrightarrow>
      h5_read fsh sth ch =
        (Inr (expected_read d (h5_current sth) ch),
         sth\<lparr>h5_data := Some d, h5_current := expected_cursor d (h5_current sth) ch\<rparr>)) \<and>
   (pq_ready fsp stp F \<and> 0 < cp \<longrightarrow>
      (\<exists>st'. pq_read fsp stp cp =
                Some (Inr (expected_read (all_rows F) (pq_current stp) cp), st') \<and>
             pq_current st' = expected_cursor (all_rows F) (pq_current stp) cp \<and>
             pq_ready fsp st' F)) \<and>
   (ba_ready fsb stb bytes \<and> 0 < cb \<longrightarrow>
      fst (ba_read fsb stb cb) =
        Inr (expected_read (ba_rows (ba_dataset_path stb) bytes) (ba_current stb) cb) \<and>
      ba_current (snd (ba_read fsb stb cb)) =
        expected_cursor (ba_rows (ba_dataset_path stb) bytes) (ba_current stb) cb \<and>
      ba_ready fsb (snd (ba_read fsb stb cb)) bytes)"
proof (intro conjI impI)
  assume "h5_ready fsh sth d \<and> 0 < ch"
  then show "h5_read fsh sth ch =
        (Inr (expected_read d (h5_current sth) ch),
         sth\<lparr>h5_data := Some d, h5_current := expected_cursor d (h5_current sth) ch\<rparr>)"
    using h5_read_ready [of fsh sth d ch] by simp
next
  assume "pq_ready fsp stp F \<and> 0 < cp"
  then show "\<exists>st'. pq_read fsp stp cp =
                Some (Inr (expected_read (all_rows F) (pq_current stp) cp), st') \<and>
             pq_current st' = expected_cursor (all_rows F) (pq_current stp) cp \<and>
             pq_ready fsp st' F"
    using pq_read_expected [of fsp stp F cp] by simp
next
  assume a: "ba_ready fsb stb bytes \<and> 0 < cb"
  then have r: "ba_ready fsb stb bytes" and c: "0 \<le> cb" by simp_all
  note k = ba_read_ready [OF r c]
  from k show "fst (ba_read fsb stb cb) =
        Inr (expected_read (ba_rows (ba_dataset_path stb) bytes) (ba_current stb) cb)" by blast
  from k show "ba_current (snd (ba_read fsb stb cb)) =
        expected_cursor (ba_rows (ba_dataset_path stb) bytes) (ba_current stb) cb" by blast
  from k show "ba_ready fsb (snd (ba_read fsb stb cb)) bytes" by blast
qed

text \<open>
  C10, amended. With the cursor below the size, \<open>read(0)\<close> returns an empty batch, not
  \<open>None\<close> and not an error, and leaves the cursor unchanged: for the hierarchical and the
  flat reader whenever \<open>size()\<close> succeeds, and for the columnar reader provided its cursor
  lies in the window of the batch it holds (or it holds none and the cursor is not before
  the end of its window).
\<close>

theorem read_zero_chunk:
  "(h5_size fsh sth = (Inr nh, sth1) \<and> h5_current sth < nh \<longrightarrow>
      h5_read fsh sth 0 = (Inr (Some []), sth1) \<and> h5_current sth1 = h5_current sth) \<and>
   (pq_ready fsp stp F \<and> pq_current stp < num_rows F \<longrightarrow>
      (\<exists>st'. pq_read fsp stp 0 = Some (Inr (Some []), st') \<and> pq_current st' = pq_current stp)) \<and>
   (ba_size fsb stb = (Inr nb, stb1) \<and> ba_current stb < nb \<longrightarrow>
      ba_read fsb stb 0 = (Inr (Some []), stb1) \<and> ba_current stb1 = ba_current stb)"
proof (intro conjI impI)
  assume a: "h5_size fsh sth = (Inr nh, sth1) \<and> h5_current sth < nh"
  then show "h5_read fsh sth 0 = (Inr (Some []), sth1)" using h5_read_zero(1) by blast
  from a show "h5_current sth1 = h5_current sth" using h5_read_zero(2) by blast
next
  assume a: "pq_ready fsp stp F \<and> pq_current stp < num_rows F"
  then have r: "pq_ready fsp stp F" and lt: "pq_current stp < num_rows F" by simp_all
  note k = pq_ready_facts [OF r]
  from lt k(2) have lt': "\<not> int (length (all_rows F)) \<le> pq_current stp" by simp
  from pq_read_expected [OF r, of 0] lt'
  show "\<exists>st'. pq_read fsp stp 0 = Some (Inr (Some []), st') \<and> pq_current st' = pq_current stp"
    by (auto simp: expected_read_def expected_cursor_def)
next
  assume a: "ba_size fsb stb = (Inr nb, stb1) \<and> ba_current stb < nb"
  then show "ba_read fsb stb 0 = (Inr (Some []), stb1)" using ba_read_zero(1) by blast
  from a show "ba_current stb1 = ba_current stb" using ba_read_zero(2) by blast
qed

lemma h5_seek_read_one:
  assumes r: "h5_ready fs st d" and n: "h5_ready fs (h5_new st) d"
    and o: "0 \<le> off" "off < int (length d)"
  shows "fst (h5_seek fs st off) = Inr ()"
    and "fst (h5_read fs (snd (h5_seek fs st off)) 1) = Inr (Some [d ! nat off])"
    and "after_discarding off (fst (h5_read fs (h5_new st) (off + 1))) = Inr (Some [d ! nat off])"
proof -
  note s = h5_seek_ready [OF r o]
  show "fst (h5_seek fs st off) = Inr ()" by (simp add: s(1))
  show "fst (h5_read fs (snd (h5_seek fs st off)) 1) = Inr (Some [d ! nat off])"
    by (simp add: s(1) h5_read_ready [OF s(2)] expected_read_one(1) [OF o])
  have c: "h5_current (h5_new st) = 0" by (simp add: h5_new_def BEGINNING_def)
  have p: "0 \<le> off + 1" using o by simp
  show "after_discarding off (fst (h5_read fs (h5_new st) (off + 1))) = Inr (Some [d ! nat off])"
    by (simp add: h5_read_ready [OF n p] c expected_read_one(2) [OF o])
qed

lemma pq_seek_read_one:
  assumes r: "pq_ready fs (st\<lparr>pq_current := off\<rparr>) F" and n: "pq_ready fs (pq_new st) F"
    and o: "0 \<le> off" "off < num_rows F"
  shows "fst (pq_seek fs st off) = Inr ()"
    and "map_option fst (pq_read fs (snd (pq_seek fs st off)) 1) =
           Some (Inr (Some [all_rows F ! nat off]))"
    and "map_option (after_discarding off \<circ> fst) (pq_read fs (pq_new st) (off + 1)) =
           Some (Inr (Some [all_rows F ! nat off]))"
proof -
  note k = pq_ready_facts(2) [OF n]
  from o k have o': "off < int (length (all_rows F))" by simp
  from pq_seek_ready [OF r o] obtain st1 where s: "pq_seek fs st off = (Inr (), st1)"
    and r1: "pq_ready fs st1 F" and c1: "pq_current st1 = off" by blast
  show "fst (pq_seek fs st off) = Inr ()" by (simp add: s)
  from pq_read_expected [OF r1, of 1] obtain st2 where
    "pq_read fs st1 1 = Some (Inr (expected_read (all_rows F) (pq_current st1) 1), st2)" by auto
  then show "map_option fst (pq_read fs (snd (pq_seek fs st off)) 1) =
           Some (Inr (Some [all_rows F ! nat off]))"
    by (simp add: s c1 expected_read_one(1) [OF o(1) o'])
  have c: "pq_current (pq_new st) = 0" by (simp add: pq_new_def BEGINNING_def)
  have p: "0 \<le> off + 1" using o by simp
  from pq_read_expected [OF n p] obtain st3 where
    "pq_read fs (pq_new st) (off + 1) =
       Some (Inr (expected_read (all_rows F) (pq_current (pq_new st)) (off + 1)), st3)" by auto
  then show "map_option (after_discarding off \<circ> fst) (pq_read fs (pq_new st) (off + 1)) =
           Some (Inr (Some [all_rows F ! nat off]))"
    by (simp add: c expected_read_one(2) [OF o(1) o'])
qed

lemma ba_seek_read_one:
  assumes r: "ba_ready fs st bytes"
    and n: "ba_ready fs (BigANNVectorDataSet_init (ba_dataset_path st)) bytes"
    and o: "0 \<le> off" "off < int (ba_points bytes)"
  shows "fst (ba_seek fs st off) = Inr ()"
    and "fst (ba_read fs (snd (ba_seek fs st off)) 1) =
           Inr (Some [ba_rows (ba_dataset_path st) bytes ! nat off])"
    and "after_discarding off
           (fst (ba_read fs (BigANNVectorDataSet_init (ba_dataset_path st)) (off + 1))) =
           Inr (Some [ba_rows (ba_dataset_path st) bytes ! nat off])"
proof -
  let ?rows = "ba_rows (ba_dataset_path st) bytes"
  have o': "off < int (length ?rows)" using o by simp
  note s = ba_seek_ready [OF r o]
  from s show "fst (ba_seek fs st off) = Inr ()" by blast
  from s have r1: "ba_ready fs (snd (ba_seek fs st off)) bytes"
    and c1: "ba_current (snd (ba_seek fs st off)) = off"
    and p1: "ba_dataset_path (snd (ba_seek fs st off)) = ba_dataset_path st" by blast+
  from ba_read_ready [OF r1, of 1]
  show "fst (ba_read fs (snd (ba_seek fs st off)) 1) = Inr (Some [?rows ! nat off])"
    by (simp add: c1 p1 expected_read_one(1) [OF o(1) o'])
  have c: "ba_current (BigANNVectorDataSet_init (ba_dataset_path st)) = 0"
    "ba_dataset_path (BigANNVectorDataSet_init (ba_dataset_path st)) = ba_dataset_path st"
    by (simp_all add: BigANNVectorDataSet_init_def BEGINNING_def)
  have p: "0 \<le> off + 1" using o by simp
  from ba_read_ready [OF n p]
  show "after_discarding off
           (fst (ba_read fs (BigANNVectorDataSet_init (ba_dataset_path st)) (off + 1))) =
           Inr (Some [?rows ! nat off])"
    by (simp add: c expected_read_one(2) [OF o(1) o'])
qed

text \<open>
  C3, amended. For an offset in \<open>[0, size())\<close>, \<open>seek(offset)\<close> followed by \<open>read(1)\<close>
  returns the single row at \<open>offset\<close>, the same as a new reader returns for
  \<open>read(offset + 1)\<close> after the first \<open>offset\<close> vectors are discarded: for the hierarchical
  and the flat reader in every state they reach, also when the seek moves backward, and
  for the columnar reader provided the offset lies in the window of the batch it holds, or
  it holds none and the offset is not before the end of its window (as on a new reader).
\<close>

theorem seek_then_read_one:
  "(h5_ready fsh sth d \<and> h5_ready fsh (h5_new sth) d \<and> 0 \<le> offh \<and> offh < int (length d) \<longrightarrow>
      fst (h5_seek fsh sth offh) = Inr () \<and>
      fst (h5_read fsh (snd (h5_seek fsh sth offh)) 1) = Inr (Some [d ! nat offh]) \<and>
      after_discarding offh (fst (h5_read fsh (h5_new sth) (offh + 1))) =
        Inr (Some [d ! nat offh])) \<and>
   (pq_ready fsp (stp\<lparr>pq_current := offp\<rparr>) F \<and> pq_ready fsp (pq_new stp) F \<and>
    0 \<le> offp \<and> offp < num_rows F \<longrightarrow>
      fst (pq_seek fsp stp offp) = Inr () \<and>
      map_option fst (pq_read fsp (snd (pq_seek fsp stp offp)) 1) =
        Some (Inr (Some [all_rows F ! nat offp])) \<and>
      map_option (after_discarding offp \<circ> fst) (pq_read fsp (pq_new stp) (offp + 1)) =
        Some (Inr (Some [all_rows F ! nat offp]))) \<and>
   (ba_ready fsb stb bytes \<and> ba_ready fsb (BigANNVectorDataSet_init (ba_dataset_path stb)) bytes \<and>
    0 \<le> offb \<and> offb < int (ba_points bytes) \<longrightarrow>
      fst (ba_seek fsb stb offb) = Inr () \<and>
      fst (ba_read fsb (snd (ba_seek fsb stb offb)) 1) =
        Inr (Some [ba_rows (ba_dataset_path stb) bytes ! nat offb]) \<and>
      after_discarding offb
        (fst (ba_read fsb (BigANNVectorDataSet_init (ba_dataset_path stb)) (offb + 1))) =
        Inr (Some [ba_rows (ba_dataset_path stb) bytes ! nat offb]))"
proof (intro conjI impI)
  assume a: "h5_ready fsh sth d \<and> h5_ready fsh (h5_new sth) d \<and> 0 \<le> offh \<and>
             offh < int (length d)"
  then have h: "h5_ready fsh sth d" "h5_ready fsh (h5_new sth) d" "0 \<le> offh"
    "offh < int (length d)" by simp_all
  show "fst (h5_seek fsh sth offh) = Inr ()" by (rule h5_seek_read_one(1) [OF h])
  show "fst (h5_read fsh (snd (h5_seek fsh sth offh)) 1) = Inr (Some [d ! nat offh])"
    by (rule h5_seek_read_one(2) [OF h])
  show "after_discarding offh (fst (h5_read fsh (h5_new sth) (offh + 1))) =
        Inr (Some [d ! nat offh])"
    by (rule h5_seek_read_one(3) [OF h])
next
  assume a: "pq_ready fsp (stp\<lparr>pq_current := offp\<rparr>) F \<and> pq_ready fsp (pq_new stp) F \<and>
    0 \<le> offp \<and> offp < num_rows F"
  then have h: "pq_ready fsp (stp\<lparr>pq_current := offp\<rparr>) F" "pq_ready fsp (pq_new stp) F"
    "0 \<le> offp" "offp < num_rows F" by simp_all
  show "fst (pq_seek fsp stp offp) = Inr ()" by (rule pq_seek_read_one(1) [OF h])
  show "map_option fst (pq_read fsp (snd (pq_seek fsp stp offp)) 1) =
        Some (Inr (Some [all_rows F ! nat offp]))"
    by (rule pq_seek_read_one(2) [OF h])
  show "map_option (after_discarding offp \<circ> fst) (pq_read fsp (pq_new stp) (offp + 1)) =
        Some (Inr (Some [all_rows F ! nat offp]))"
    by (rule pq_seek_read_one(3) [OF h])
next
  assume a: "ba_ready fsb stb bytes \<and>
    ba_ready fsb (BigANNVectorDataSet_init (ba_dataset_path stb)) bytes \<and>
    0 \<le> offb \<and> offb < int (ba_points bytes)"
  then have h: "ba_ready fsb stb bytes"
    "ba_ready fsb (BigANNVectorDataSet_init (ba_dataset_path stb)) bytes"
    "0 \<le> offb" "offb < int (ba_points bytes)" by simp_all
  show "fst (ba_seek fsb stb offb) = Inr ()" by (rule ba_seek_read_one(1) [OF h])
  show "fst (ba_read fsb (snd (ba_seek fsb stb offb)) 1) =
        Inr (Some [ba_rows (ba_dataset_path stb) bytes ! nat offb])"
    by (rule ba_seek_read_one(2) [OF h])
  show "after_discarding offb
        (fst (ba_read fsb (BigANNVectorDataSet_init (ba_dataset_path stb)) (offb + 1))) =
        Inr (Some [ba_rows (ba_dataset_path stb) bytes ! nat offb])"
    by (rule ba_seek_read_one(3) [OF h])
qed

lemma h5_example_ready:
  "h5_ready h5_example_fs h5_example_new [10, 11, 12]"
  "h5_ready h5_example_fs h5_example_at_end [10, 11, 12]"
  "h5_new h5_example_at_end = h5_example_new"
  by (simp_all add: h5_ready_def h5_example_fs_def h5_example_new_def h5_example_at_end_def
      h5_new_def BEGINNING_def)

lemma pq_example_held_ready:
  "pq_ready pq_example_fs (pq_example_held\<lparr>pq_current := 3\<rparr>) pq_example_file"
  "pq_ready pq_example_fs pq_example_held pq_example_file"
  "pq_new pq_example_held = pq_example_new"
  by (simp_all add: pq_ready_def pq_window_ok_def pq_file_ok_def pq_example_held_def
      pq_example_file_def pq_new_def pq_example_new_def BEGINNING_def Let_def)

lemma fbin_example_header:
  "ba_points fbin_example = 2" "ba_dim fbin_example = 2" "ba_width ''data.fbin'' = 4"
  "length fbin_example = 24"
  by (simp_all add: ba_points_def ba_dim_def ba_width_def fbin_example_def last_dot_part_def)

lemma fbin_example_ok: "ba_file_ok ''data.fbin'' fbin_example"
  by (simp add: ba_file_ok_def fbin_example_header last_dot_part_data_fbin)

lemma fbin_example_ready:
  "ba_ready [''data.fbin'' \<mapsto> fbin_example] (BigANNVectorDataSet_init ''data.fbin'') fbin_example"
  "ba_ready [''data.fbin'' \<mapsto> fbin_example] fbin_loaded fbin_example"
  "ba_ready [''data.fbin'' \<mapsto> fbin_example] fbin_at_end fbin_example"
  by (simp_all add: ba_ready_def BigANNVectorDataSet_init_def BEGINNING_def fbin_example_ok
      fbin_loaded_def fbin_at_end_def fbin_example_header ba_reader_of_def last_dot_part_data_fbin)

lemma fbin_example_rows:
  "ba_rows ''data.fbin'' fbin_example =
     [[PTuple [PFloat (Finite 1)], PTuple [PFloat (Finite 2)]],
      [PTuple [PFloat (Finite 3)], PTuple [PFloat (Finite 4)]]]"
proof -
  have u: "[0..<2] = [0, Suc 0]" by (simp add: upt_rec)
  have v: "ba_decode 4 (take 4 (drop 8 fbin_example)) = PTuple [PFloat (Finite 1)]"
    "ba_decode 4 (take 4 (drop 12 fbin_example)) = PTuple [PFloat (Finite 2)]"
    "ba_decode 4 (take 4 (drop 16 fbin_example)) = PTuple [PFloat (Finite 3)]"
    "ba_decode 4 (take 4 (drop 20 fbin_example)) = PTuple [PFloat (Finite 4)]"
    by (simp_all add: ba_decode_def fbin_example_def float32_of_bits_def)
  show ?thesis
    by (simp add: ba_rows_def fbin_example_header(1,2,3) ba_row_def u v)
qed

text \<open>
  The three readers at concrete states: 2 of 3 rows from the start, the last 2 of 5 rows
  from cursor 3 with chunk size 5, and the first of 2 vectors of the float file.
\<close>

theorem read_chunk_witness:
  "h5_read h5_example_fs h5_example_new 2 =
     (Inr (Some [10, 11]), h5_example_new\<lparr>h5_data := Some [10, 11, 12], h5_current := 2\<rparr>) \<and>
   (\<exists>st'. pq_read pq_example_fs pq_example_held 5 = Some (Inr (Some [13, 14]), st') \<and>
          pq_current st' = 5) \<and>
   fst (ba_read [''data.fbin'' \<mapsto> fbin_example] fbin_loaded 1) =
     Inr (Some [[PTuple [PFloat (Finite 1)], PTuple [PFloat (Finite 2)]]]) \<and>
   ba_current (snd (ba_read [''data.fbin'' \<mapsto> fbin_example] fbin_loaded 1)) = 1"
proof -
  have c: "h5_current h5_example_new = 0" "pq_current pq_example_held = 3"
    "ba_current fbin_loaded = 0" "ba_dataset_path fbin_loaded = ''data.fbin''"
    by (simp_all add: h5_example_new_def pq_example_held_def fbin_loaded_def)
  have e: "expected_read [10, 11, 12 :: nat] 0 2 = Some [10, 11]"
    "expected_cursor [10, 11, 12 :: nat] 0 2 = 2"
    "expected_read [10, 11, 12, 13, 14 :: nat] 3 5 = Some [13, 14]"
    "expected_cursor [10, 11, 12, 13, 14 :: nat] 3 5 = 5"
    "expected_read (ba_rows ''data.fbin'' fbin_example) 0 1 =
       Some [[PTuple [PFloat (Finite 1)], PTuple [PFloat (Finite 2)]]]"
    "expected_cursor (ba_rows ''data.fbin'' fbin_example) 0 1 = 1"
    by (simp_all add: expected_read_def expected_cursor_def fbin_example_rows)
  show ?thesis
    using read_chunk [where fsh = h5_example_fs and sth = h5_example_new and d = "[10, 11, 12]"
        and ch = 2 and fsp = pq_example_fs and stp = pq_example_held and F = pq_example_file
        and cp = 5 and fsb = "[''data.fbin'' \<mapsto> fbin_example]" and stb = fbin_loaded
        and bytes = fbin_example and cb = 1]
      h5_example_ready(1) pq_example_held_ready(2) fbin_example_ready(2)
    unfolding c pq_example_rows e
    by auto
qed

text \<open>
  The three readers at concrete states with cursor 0, 3 and 0.
\<close>

theorem read_zero_chunk_witness:
  "h5_read h5_example_fs h5_example_new 0 =
     (Inr (Some []), h5_example_new\<lparr>h5_data := Some [10, 11, 12]\<rparr>) \<and>
   (\<exists>st'. pq_read pq_example_fs pq_example_held 0 = Some (Inr (Some []), st') \<and>
          pq_current st' = 3) \<and>
   ba_read [''data.fbin'' \<mapsto> fbin_example] (BigANNVectorDataSet_init ''data.fbin'') 0 =
     (Inr (Some []), fbin_loaded)"
proof -
  have h: "h5_size h5_example_fs h5_example_new =
             (Inr 3, h5_example_new\<lparr>h5_data := Some [10, 11, 12]\<rparr>) \<and>
           h5_current h5_example_new < 3"
    by (simp add: h5_size_def h5_load_def h5_example_fs_def h5_example_new_def)
  have p: "pq_ready pq_example_fs pq_example_held pq_example_file \<and>
           pq_current pq_example_held < num_rows pq_example_file"
    by (simp add: pq_example_held_ready(2)) (simp add: pq_example_held_def pq_example_file_def)
  have b: "ba_size [''data.fbin'' \<mapsto> fbin_example] (BigANNVectorDataSet_init ''data.fbin'') =
             (Inr 2, fbin_loaded) \<and>
           ba_current (BigANNVectorDataSet_init ''data.fbin'') < 2"
    by (simp add: ba_size_def ba_load_fbin_example)
      (simp add: fbin_loaded_def BigANNVectorDataSet_init_def BEGINNING_def)
  have c: "pq_current pq_example_held = 3" by (simp add: pq_example_held_def)
  show ?thesis
    using read_zero_chunk [where fsh = h5_example_fs and sth = h5_example_new and nh = 3
        and ?sth1.0 = "h5_example_new\<lparr>h5_data := Some [10, 11, 12]\<rparr>"
        and fsp = pq_example_fs and stp = pq_example_held and F = pq_example_file
        and fsb = "[''data.fbin'' \<mapsto> fbin_example]"
        and stb = "BigANNVectorDataSet_init ''data.fbin''" and nb = 2 and ?stb1.0 = fbin_loaded]
      h p b
    unfolding c by blast
qed

text \<open>
  The hierarchical and the flat reader seek back from the end to row 0; the columnar
  reader, holding the window from 2 up to 5 with cursor 3, seeks to row 3.
\<close>

theorem seek_then_read_one_witness:
  "fst (h5_read h5_example_fs (snd (h5_seek h5_example_fs h5_example_at_end 0)) 1) =
     Inr (Some [10]) \<and>
   after_discarding 0 (fst (h5_read h5_example_fs h5_example_new 1)) = Inr (Some [10]) \<and>
   map_option fst (pq_read pq_example_fs (snd (pq_seek pq_example_fs pq_example_held 3)) 1) =
     Some (Inr (Some [13])) \<and>
   map_option (after_discarding 3 \<circ> fst) (pq_read pq_example_fs pq_example_new 4) =
     Some (Inr (Some [13])) \<and>
   fst (ba_read [''data.fbin'' \<mapsto> fbin_example]
          (snd (ba_seek [''data.fbin'' \<mapsto> fbin_example] fbin_at_end 0)) 1) =
     Inr (Some [[PTuple [PFloat (Finite 1)], PTuple [PFloat (Finite 2)]]]) \<and>
   after_discarding 0
     (fst (ba_read [''data.fbin'' \<mapsto> fbin_example] (BigANNVectorDataSet_init ''data.fbin'') 1)) =
     Inr (Some [[PTuple [PFloat (Finite 1)], PTuple [PFloat (Finite 2)]]])"
proof -
  have p: "ba_dataset_path fbin_at_end = ''data.fbin''"
    by (simp add: fbin_at_end_def fbin_loaded_def)
  have hh: "h5_ready h5_example_fs h5_example_at_end [10, 11, 12] \<and>
            h5_ready h5_example_fs (h5_new h5_example_at_end) [10, 11, 12] \<and>
            (0::int) \<le> 0 \<and> 0 < int (length [10, 11, 12 :: nat])"
    by (simp add: h5_example_ready)
  have pp: "pq_ready pq_example_fs (pq_example_held\<lparr>pq_current := 3\<rparr>) pq_example_file \<and>
            pq_ready pq_example_fs (pq_new pq_example_held) pq_example_file \<and>
            (0::int) \<le> 3 \<and> 3 < num_rows pq_example_file"
    by (simp add: pq_example_held_ready pq_example_ready) (simp add: pq_example_file_def)
  have bb: "ba_ready [''data.fbin'' \<mapsto> fbin_example] fbin_at_end fbin_example \<and>
            ba_ready [''data.fbin'' \<mapsto> fbin_example]
              (BigANNVectorDataSet_init (ba_dataset_path fbin_at_end)) fbin_example \<and>
            (0::int) \<le> 0 \<and> 0 < int (ba_points fbin_example)"
    by (simp add: p fbin_example_ready fbin_example_header)
  have v: "[10, 11, 12 :: nat] ! nat 0 = 10" "[10, 11, 12, 13, 14 :: nat] ! nat 3 = 13"
    "ba_rows ''data.fbin'' fbin_example ! nat 0 =
       [PTuple [PFloat (Finite 1)], PTuple [PFloat (Finite 2)]]"
    by (simp_all add: fbin_example_rows)
  show ?thesis
    using seek_then_read_one [where fsh = h5_example_fs and sth = h5_example_at_end
        and d = "[10, 11, 12]" and offh = 0
        and fsp = pq_example_fs and stp = pq_example_held and F = pq_example_file and offp = 3
        and fsb = "[''data.fbin'' \<mapsto> fbin_example]" and stb = fbin_at_end
        and bytes = fbin_example and offb = 0]
      hh pp bb
    unfolding h5_example_ready(3) pq_example_held_ready(3) p pq_example_rows v
    by simp
qed

end
